theory Spec2Isabelle
  imports Complex_Main
begin

section \<open>Strings\<close>

text \<open>
  A JavaScript string is modelled as a \<^typ>\<open>string\<close>: one \<^typ>\<open>char\<close> per UTF-16 code
  unit, for the code units U+0000 to U+00FF. \<open>String.prototype.trim\<close> and the regular
  expression class \<open>\s\<close> share one set of characters (WhiteSpace and LineTerminator);
  the members of that set below U+0100 are TAB, LF, VT, FF, CR, SPACE and NBSP.
\<close>

definition isWhiteSpace :: "char \<Rightarrow> bool" where
  "isWhiteSpace c \<longleftrightarrow>
     c = CHR 0x09 \<or> c = CHR 0x0A \<or> c = CHR 0x0B \<or> c = CHR 0x0C \<or> c = CHR 0x0D \<or>
     c = CHR '' '' \<or> c = CHR 0xA0"

text \<open>The regular expression atom \<open>.\<close> (without the \<open>s\<close> flag) matches every code unit
  but a LineTerminator: LF and CR in this range.\<close>

definition isLineTerminator :: "char \<Rightarrow> bool" where
  "isLineTerminator c \<longleftrightarrow> c = CHR 0x0A \<or> c = CHR 0x0D"

definition trim :: "string \<Rightarrow> string" where
  "trim s = rev (dropWhile isWhiteSpace (rev (dropWhile isWhiteSpace s)))"

text \<open>
  Canonicalisation of a code unit under the \<open>i\<close> flag (no \<open>u\<close> flag): the upper-case form,
  except that a non-ASCII code unit never canonicalises to an ASCII one. Only the ASCII
  letters are mapped here; that decides every comparison with an ASCII letter of a pattern.
\<close>

definition canonicalize :: "char \<Rightarrow> char" where
  "canonicalize c =
     (case map_of (zip ''abcdefghijklmnopqrstuvwxyz'' ''ABCDEFGHIJKLMNOPQRSTUVWXYZ'') c of
        Some u \<Rightarrow> u
      | None \<Rightarrow> c)"

text \<open>A pattern atom that is a literal character, compared with or without the \<open>i\<close> flag.\<close>

definition lit :: "char \<Rightarrow> char \<Rightarrow> bool" where
  "lit p c \<longleftrightarrow> c = p"

definition litI :: "char \<Rightarrow> char \<Rightarrow> bool" where
  "litI p c \<longleftrightarrow> canonicalize c = canonicalize p"

definition anyChar :: "char \<Rightarrow> bool" where
  "anyChar c \<longleftrightarrow> \<not> isLineTerminator c"

text \<open>A pattern that is a sequence of one-character atoms matches at the head of a string.\<close>

fun matchPrefix :: "(char \<Rightarrow> bool) list \<Rightarrow> string \<Rightarrow> bool" where
  "matchPrefix [] s = True"
| "matchPrefix (p # ps) [] = False"
| "matchPrefix (p # ps) (c # cs) = (p c \<and> matchPrefix ps cs)"

text \<open>\<open>s.replace(/pattern/, '')\<close> without the \<open>g\<close> flag: the leftmost match is removed,
  the rest of the string is kept.\<close>

fun replaceFirst :: "(char \<Rightarrow> bool) list \<Rightarrow> string \<Rightarrow> string" where
  "replaceFirst ps [] = []"
| "replaceFirst ps (c # cs) =
     (if matchPrefix ps (c # cs) then drop (length ps) (c # cs)
      else c # replaceFirst ps cs)"

text \<open>\<open>s.replace(/pattern/g, '')\<close>: every match, left to right, is removed.\<close>

function replaceAll :: "(char \<Rightarrow> bool) list \<Rightarrow> string \<Rightarrow> string" where
  "replaceAll ps [] = []"
| "replaceAll ps (c # cs) =
     (if matchPrefix ps (c # cs) then replaceAll ps (drop (length ps - 1) cs)
      else c # replaceAll ps cs)"
  by pat_completeness auto
termination
  by (relation "measure (\<lambda>(ps, s). length s)") auto

text \<open>
  The pattern of \<open>/(Approx.)/i\<close> as the regular expression reads: the parentheses form a
  capturing group and match no character, the letters are compared case-insensitively,
  and the dot matches any one character but a line terminator.
\<close>

definition approxRegex :: "(char \<Rightarrow> bool) list" where
  "approxRegex = map litI ''Approx'' @ [anyChar]"

section \<open>Values\<close>

text \<open>
  The values the program handles (its parameters are typed \<open>any\<close>): the JSON values, plus
  \<open>undefined\<close> and function objects, which property reads can yield. A number is
  represented by the text \<open>String\<close> yields for it, which is all this program uses of a
  number read from its input; a function object likewise. An object is the list of its own
  enumerable properties, in the order \<open>Object.keys\<close> enumerates them.
\<close>

datatype jsval =
    JNull
  | JUndefined
  | JBool bool
  | JNum string
  | JStr string
  | JArr "jsval list"
  | JObj "(string \<times> jsval) list"
  | JFun string

fun joinWith :: "string \<Rightarrow> string list \<Rightarrow> string" where
  "joinWith sep [] = []"
| "joinWith sep [x] = x"
| "joinWith sep (x # y # ys) = x @ sep @ joinWith sep (y # ys)"

text \<open>Every exception this program can raise is a TypeError.\<close>

datatype error = TypeError

text \<open>
  \<open>String(value)\<close>. For an object the conversion calls its \<open>toString\<close>, then its \<open>valueOf\<close>,
  whichever is callable, and raises a TypeError when neither yields a primitive. A property
  of an object read from JSON is never callable, and the inherited \<open>valueOf\<close> returns the
  object itself: so an object that owns a property \<open>toString\<close> raises, and every other
  object gives \<open>[object Object]\<close> through the inherited \<open>toString\<close>. An array is joined
  with commas, its \<open>null\<close> and \<open>undefined\<close> elements giving the empty string, every other
  element converted in turn: the first element that raises ends the conversion.
\<close>

fun String_of :: "jsval \<Rightarrow> error + string"
  and String_elements :: "jsval list \<Rightarrow> error + string list" where
  "String_of JNull = Inr ''null''"
| "String_of JUndefined = Inr ''undefined''"
| "String_of (JBool b) = Inr (if b then ''true'' else ''false'')"
| "String_of (JNum t) = Inr t"
| "String_of (JStr s) = Inr s"
| "String_of (JArr xs) =
     (case String_elements xs of Inl e \<Rightarrow> Inl e | Inr texts \<Rightarrow> Inr (joinWith '','' texts))"
| "String_of (JObj kvs) =
     (if ''toString'' \<in> fst ` set kvs then Inl TypeError else Inr ''[object Object]'')"
| "String_of (JFun t) = Inr t"
| "String_elements [] = Inr []"
| "String_elements (x # xs) =
     (case (if x = JNull \<or> x = JUndefined then Inr [] else String_of x) of
        Inl e \<Rightarrow> Inl e
      | Inr text \<Rightarrow>
          (case String_elements xs of Inl e \<Rightarrow> Inl e | Inr texts \<Rightarrow> Inr (text # texts)))"

section \<open>cleanValue\<close>

definition removeCommas :: "string \<Rightarrow> string" where
  "removeCommas s = filter (\<lambda>c. c \<noteq> CHR '','') s"

definition isNullMarker :: "string \<Rightarrow> bool" where
  "isNullMarker strVal \<longleftrightarrow>
     strVal = ''---'' \<or> strVal = ''-'' \<or> strVal = ''NIL'' \<or> strVal = ''NA'' \<or> strVal = []"

text \<open>The result \<open>string | null\<close> is a \<^typ>\<open>string option\<close>, \<^term>\<open>None\<close> for \<open>null\<close>; the
  call raises when \<open>String(value)\<close> does.\<close>

definition cleanValue :: "jsval \<Rightarrow> error + string option" where
  "cleanValue v =
     (if v = JNull \<or> v = JUndefined then Inr None
      else
        (case String_of v of
           Inl e \<Rightarrow> Inl e
         | Inr text \<Rightarrow>
             let strVal = trim text;
                 strVal = removeCommas strVal;
                 strVal = trim (replaceFirst approxRegex strVal)
             in Inr (if isNullMarker strVal then None else Some strVal)))"

text \<open>
  The Row Cleaner with the removal step as the specification words it, for comparison with
  \<^const>\<open>cleanValue\<close>: the literal \<open>(Approx.)\<close>, parentheses and full stop included, is
  removed wherever it occurs, the letters compared case-insensitively. The other steps are
  those of the code.
\<close>

definition approxLiteral :: "(char \<Rightarrow> bool) list" where
  "approxLiteral = [lit CHR ''(''] @ map litI ''Approx'' @ [lit CHR ''.'', lit CHR '')'']"

definition spec_cleanValue :: "jsval \<Rightarrow> error + string option" where
  "spec_cleanValue v =
     (if v = JNull \<or> v = JUndefined then Inr None
      else
        (case String_of v of
           Inl e \<Rightarrow> Inl e
         | Inr text \<Rightarrow>
             let strVal = trim (replaceAll approxLiteral (removeCommas (trim text)))
             in Inr (if isNullMarker strVal then None else Some strVal)))"

section \<open>Column names\<close>

text \<open>The decimal text of a natural number, as a template literal renders it.\<close>

definition digitChar :: "nat \<Rightarrow> char" where
  "digitChar d = ''0123456789'' ! d"

fun showNat :: "nat \<Rightarrow> string" where
  "showNat n = (if n < 10 then [digitChar n] else showNat (n div 10) @ [digitChar (n mod 10)])"

declare showNat.simps [simp del]

text \<open>The class \<open>[#\-\s]\<close> and the class \<open>[a-zA-Z0-9_]\<close>.\<close>

definition isEdgeChar :: "char \<Rightarrow> bool" where
  "isEdgeChar c \<longleftrightarrow> c = CHR ''#'' \<or> c = CHR ''-'' \<or> isWhiteSpace c"

definition isWordChar :: "char \<Rightarrow> bool" where
  "isWordChar c \<longleftrightarrow>
     c \<in> set ''abcdefghijklmnopqrstuvwxyzABCDEFGHIJKLMNOPQRSTUVWXYZ0123456789_''"

text \<open>
  \<open>.replace(/^[#\-\s]+|[#\-\s]+$/g, '')\<close>: the first alternative matches the longest run
  of the class at the start of the string, the second the run that ends the string; both
  are removed.
\<close>

definition stripEdges :: "string \<Rightarrow> string" where
  "stripEdges s = rev (dropWhile isEdgeChar (rev (dropWhile isEdgeChar s)))"

text \<open>\<open>.replace(/\s+/g, '_')\<close>: every maximal run of whitespace becomes one underscore.\<close>

function collapseSpaces :: "string \<Rightarrow> string" where
  "collapseSpaces [] = []"
| "collapseSpaces (c # cs) =
     (if isWhiteSpace c then CHR ''_'' # collapseSpaces (dropWhile isWhiteSpace cs)
      else c # collapseSpaces cs)"
  by pat_completeness auto
termination
  by (relation "measure length") (auto simp: length_dropWhile_le less_Suc_eq_le)

text \<open>
  The callback of \<open>columns.map((col, index) => ...)\<close>. A key of an object is a string, so
  \<open>String(col || '')\<close> is \<open>col\<close> itself (the empty key included).
\<close>

definition sanitizeColumn :: "string \<Rightarrow> nat \<Rightarrow> string" where
  "sanitizeColumn col index =
     (let cleaned = filter isWordChar (collapseSpaces (stripEdges (trim col)))
      in if cleaned = [] then ''Column_'' @ showNat (index + 1) else cleaned)"

definition cleanColumns :: "string list \<Rightarrow> string list" where
  "cleanColumns columns = map (\<lambda>(index, col). sanitizeColumn col index) (enumerate 0 columns)"

section \<open>Numbers\<close>

text \<open>
  \<open>Number(text)\<close> follows the StringNumericLiteral grammar of ECMAScript: optional
  whitespace around a signed decimal literal, \<open>Infinity\<close>, or an unsigned binary, octal or
  hexadecimal integer; the empty text is 0; any other text is \<open>NaN\<close>. A finite result is
  held as the exact value of the literal: the rounding to the nearest IEEE double (and
  with it the overflow to an infinity and the sign of zero) is not modelled.
\<close>

datatype jsnum = NaN | Infinity bool | Finite rat

definition isDigit :: "char \<Rightarrow> bool" where
  "isDigit c \<longleftrightarrow> c \<in> set ''0123456789''"

definition digitValue :: "char \<Rightarrow> nat" where
  "digitValue c =
     (case map_of (zip ''0123456789abcdefABCDEF''
                       [0, 1, 2, 3, 4, 5, 6, 7, 8, 9, 10, 11, 12, 13, 14, 15, 10, 11, 12, 13, 14, 15]) c of
        Some d \<Rightarrow> d
      | None \<Rightarrow> 0)"

definition natOfDigits :: "nat \<Rightarrow> string \<Rightarrow> nat" where
  "natOfDigits base ds = foldl (\<lambda>n c. base * n + digitValue c) 0 ds"

definition radixDigits :: "nat \<Rightarrow> string" where
  "radixDigits base =
     (if base = 2 then ''01'' else if base = 8 then ''01234567''
      else ''0123456789abcdefABCDEF'')"

text \<open>NonDecimalIntegerLiteral: \<open>0b\<close>, \<open>0o\<close> or \<open>0x\<close> (either case) and at least one digit.\<close>

definition parseNonDecimal :: "string \<Rightarrow> nat option" where
  "parseNonDecimal t =
     (case t of
        z # r # ds \<Rightarrow>
          (let base = (if r = CHR ''b'' \<or> r = CHR ''B'' then 2
                       else if r = CHR ''o'' \<or> r = CHR ''O'' then 8
                       else if r = CHR ''x'' \<or> r = CHR ''X'' then 16 else (0::nat))
           in if z = CHR ''0'' \<and> base \<noteq> 0 \<and> ds \<noteq> [] \<and> list_all (\<lambda>c. c \<in> set (radixDigits base)) ds
              then Some (natOfDigits base ds) else None)
      | _ \<Rightarrow> None)"

text \<open>ExponentPart, or nothing: \<open>e\<close> or \<open>E\<close>, an optional sign and at least one digit.\<close>

definition decimalDigits :: "string \<Rightarrow> int option" where
  "decimalDigits ds =
     (if ds \<noteq> [] \<and> list_all isDigit ds then Some (int (natOfDigits 10 ds)) else None)"

definition parseExponent :: "string \<Rightarrow> int option" where
  "parseExponent s =
     (case s of
        [] \<Rightarrow> Some 0
      | c # t \<Rightarrow>
          if c = CHR ''e'' \<or> c = CHR ''E'' then
            (case t of
               [] \<Rightarrow> None
             | sg # ds \<Rightarrow>
                 if sg = CHR ''+'' then decimalDigits ds
                 else if sg = CHR ''-'' then map_option uminus (decimalDigits ds)
                 else decimalDigits t)
          else None)"

definition scale10 :: "rat \<Rightarrow> int \<Rightarrow> rat" where
  "scale10 m e = (if 0 \<le> e then m * 10 ^ nat e else m / 10 ^ nat (- e))"

text \<open>StrUnsignedDecimalLiteral without \<open>Infinity\<close>: digits, an optional fraction and an
  optional exponent, with a digit before or after the point.\<close>

definition parseUnsignedDecimal :: "string \<Rightarrow> rat option" where
  "parseUnsignedDecimal u =
     (let ip = takeWhile isDigit u;
          r1 = dropWhile isDigit u;
          fp = (case r1 of [] \<Rightarrow> [] | c # t \<Rightarrow> if c = CHR ''.'' then takeWhile isDigit t else []);
          r2 = (case r1 of [] \<Rightarrow> [] | c # t \<Rightarrow> if c = CHR ''.'' then dropWhile isDigit t else r1)
      in if ip = [] \<and> fp = [] then None
         else (case parseExponent r2 of
                 None \<Rightarrow> None
               | Some e \<Rightarrow> Some (scale10 (of_nat (natOfDigits 10 (ip @ fp))) (e - int (length fp)))))"

definition parseUnsigned :: "string \<Rightarrow> jsnum" where
  "parseUnsigned u =
     (if u = ''Infinity'' then Infinity False
      else (case parseUnsignedDecimal u of None \<Rightarrow> NaN | Some q \<Rightarrow> Finite q))"

fun negate :: "jsnum \<Rightarrow> jsnum" where
  "negate NaN = NaN"
| "negate (Infinity neg) = Infinity (\<not> neg)"
| "negate (Finite q) = Finite (- q)"

definition Number_of :: "string \<Rightarrow> jsnum" where
  "Number_of s =
     (let t = trim s in
      if t = [] then Finite 0
      else (case parseNonDecimal t of
              Some n \<Rightarrow> Finite (of_nat n)
            | None \<Rightarrow>
                (case t of
                   [] \<Rightarrow> NaN
                 | sg # u \<Rightarrow>
                     if sg = CHR ''+'' then parseUnsigned u
                     else if sg = CHR ''-'' then negate (parseUnsigned u)
                     else parseUnsigned t)))"

text \<open>\<open>isNaN(x)\<close> for a number \<open>x\<close>.\<close>

definition isNaN :: "jsnum \<Rightarrow> bool" where
  "isNaN x \<longleftrightarrow> x = NaN"

section \<open>Objects\<close>

text \<open>
  What the program takes from its host rather than from its own text: whether
  \<open>new Date(text)\<close> is a valid date (the date grammar beyond the ISO format is left to the
  implementation), and the value a property read yields for a key that is not an own
  enumerable property of the receiver: the member of that name on the receiver's
  prototype chain (such as \<open>constructor\<close> or \<open>toString\<close>) or its own \<open>length\<close>, and
  \<open>undefined\<close> when there is none.
\<close>

record host =
  dateParses :: "string \<Rightarrow> bool"
  inherited :: "jsval \<Rightarrow> string \<Rightarrow> jsval"

text \<open>The own enumerable properties: those of an object, the elements of an array and the
  code units of a string under their indices; a number, a boolean and a function have
  none.\<close>

definition ownProps :: "jsval \<Rightarrow> (string \<times> jsval) list" where
  "ownProps v =
     (case v of
        JObj kvs \<Rightarrow> kvs
      | JArr xs \<Rightarrow> zip (map showNat [0..<length xs]) xs
      | JStr s \<Rightarrow> zip (map showNat [0..<length s]) (map (\<lambda>c. JStr [c]) s)
      | _ \<Rightarrow> [])"

text \<open>\<open>Object.keys(v)\<close> raises a TypeError for \<open>null\<close> and \<open>undefined\<close>. An object has
  each key once: a key the list repeats counts once.\<close>

definition Object_keys :: "jsval \<Rightarrow> error + string list" where
  "Object_keys v =
     (if v = JNull \<or> v = JUndefined then Inl TypeError
      else Inr (remdups (map fst (ownProps v))))"

text \<open>The read \<open>v[k]\<close> raises a TypeError for \<open>null\<close> and \<open>undefined\<close>.\<close>

definition propValue :: "host \<Rightarrow> jsval \<Rightarrow> string \<Rightarrow> jsval" where
  "propValue h v k = (case map_of (ownProps v) k of Some x \<Rightarrow> x | None \<Rightarrow> inherited h v k)"

definition getProp :: "host \<Rightarrow> jsval \<Rightarrow> string \<Rightarrow> error + jsval" where
  "getProp h v k = (if v = JNull \<or> v = JUndefined then Inl TypeError else Inr (propValue h v k))"

text \<open>
  The objects the program builds (\<open>newRow\<close>, \<open>columnTypes\<close>, each declared a
  \<open>Record<string, ...>\<close> and created as \<open>{}\<close> or as a copy \<open>{ ...row }\<close>) are maps from
  their own keys to values. The write \<open>obj[k] = x\<close> adds or replaces the own property \<open>k\<close>,
  except for the key \<open>__proto__\<close> on an object that does not own it: that write reaches the
  accessor of \<open>Object.prototype\<close>. With a string or a number for \<open>x\<close> the accessor does
  nothing, which is \<open>objSet\<close> below: the write of a type into \<open>columnTypes\<close> and of a
  number into the copy of a row.
\<close>

definition objSet :: "(string \<rightharpoonup> 'a) \<Rightarrow> string \<Rightarrow> 'a \<Rightarrow> (string \<rightharpoonup> 'a)" where
  "objSet obj k x = (if k = ''__proto__'' \<and> obj k = None then obj else obj(k \<mapsto> x))"

section \<open>convertJsonToParsedData\<close>

datatype coltype = TString | TNumber | TDate | TBoolean

text \<open>A cell of a row: \<open>null\<close>, a string, or (after the final pass) a number.\<close>

datatype cell = CNull | CStr string | CNum jsnum

record ParsedData =
  columns :: "string list"
  rows :: "(string \<rightharpoonup> cell) list"
  columnTypes :: "string \<rightharpoonup> coltype"

definition emptyParsedData :: ParsedData where
  "emptyParsedData = \<lparr>columns = [], rows = [], columnTypes = Map.empty\<rparr>"

definition toCell :: "string option \<Rightarrow> cell" where
  "toCell r = (case r of None \<Rightarrow> CNull | Some s \<Rightarrow> CStr s)"

text \<open>
  A cleaned row takes strings and \<open>null\<close>. On the key \<open>__proto__\<close> the accessor ignores a
  string, but \<open>null\<close> makes it remove the prototype of the row; from then on the accessor is
  out of reach and a write under \<open>__proto__\<close> creates an own property. The row under
  construction is therefore its own properties together with the flag that its prototype
  has been removed.
\<close>

definition rowSet :: "(string \<rightharpoonup> cell) \<times> bool \<Rightarrow> string \<Rightarrow> cell \<Rightarrow> (string \<rightharpoonup> cell) \<times> bool" where
  "rowSet obj k x =
     (case obj of
        (props, noProto) \<Rightarrow>
          if k = ''__proto__'' \<and> props k = None \<and> \<not> noProto then (props, x = CNull)
          else (props(k \<mapsto> x), noProto))"

text \<open>The body of \<open>jsonData.map(row => ...)\<close>: the loop over the column positions, each an
  original key with its cleaned name. The rest of the function reads the own properties
  of the row it returns.\<close>

fun cleanRow ::
  "host \<Rightarrow> jsval \<Rightarrow> (string \<times> string) list \<Rightarrow> (string \<rightharpoonup> cell) \<times> bool \<Rightarrow>
     error + (string \<rightharpoonup> cell)" where
  "cleanRow h row [] newRow = Inr (fst newRow)"
| "cleanRow h row ((originalCol, cleanedCol) # rest) newRow =
     (case getProp h row originalCol of
        Inl e \<Rightarrow> Inl e
      | Inr v \<Rightarrow>
          (case cleanValue v of
             Inl e \<Rightarrow> Inl e
           | Inr cleaned \<Rightarrow> cleanRow h row rest (rowSet newRow cleanedCol (toCell cleaned))))"

text \<open>\<open>Array.prototype.map\<close> with a callback that may raise: the first exception ends it.\<close>

fun mapE :: "('a \<Rightarrow> error + 'b) \<Rightarrow> 'a list \<Rightarrow> error + 'b list" where
  "mapE f [] = Inr []"
| "mapE f (x # xs) =
     (case f x of
        Inl e \<Rightarrow> Inl e
      | Inr y \<Rightarrow> (case mapE f xs of Inl e \<Rightarrow> Inl e | Inr ys \<Rightarrow> Inr (y # ys)))"

definition cleanRows :: "host \<Rightarrow> string list \<Rightarrow> jsval list \<Rightarrow> error + (string \<rightharpoonup> cell) list" where
  "cleanRows h originalColumns jsonData =
     mapE (\<lambda>row. cleanRow h row (zip originalColumns (cleanColumns originalColumns))
                  (Map.empty, False)) jsonData"

text \<open>
  \<open>samples[col]\<close> after the collecting loops: for each sampled row in order, and for each
  position of \<open>cleanedColumns\<close> that holds \<open>col\<close>, the value \<open>row[col]\<close> when it is neither
  \<open>null\<close> nor \<open>undefined\<close>. (For the key \<open>__proto__\<close> a row that does not own it yields
  its prototype instead; the type inferred for that key is never stored, \<open>columnTypes\<close>
  being written through \<^const>\<open>objSet\<close>.)
\<close>

fun presentValue :: "cell option \<Rightarrow> cell list" where
  "presentValue None = []"
| "presentValue (Some CNull) = []"
| "presentValue (Some val) = [val]"

definition colSamplesOf :: "string list \<Rightarrow> (string \<rightharpoonup> cell) list \<Rightarrow> string \<Rightarrow> cell list" where
  "colSamplesOf cleanedColumns sampleRows col =
     concat (map (\<lambda>row. concat (map (\<lambda>c. if c = col then presentValue (row c) else [])
                                  cleanedColumns)) sampleRows)"

text \<open>The three predicates passed to \<open>colSamples.every\<close>. No cell is a boolean.\<close>

fun isBooleanSample :: "cell \<Rightarrow> bool" where
  "isBooleanSample (CStr val) \<longleftrightarrow> val = ''true'' \<or> val = ''false''"
| "isBooleanSample _ \<longleftrightarrow> False"

fun isNumberSample :: "cell \<Rightarrow> bool" where
  "isNumberSample (CNum n) \<longleftrightarrow> True"
| "isNumberSample (CStr val) \<longleftrightarrow> \<not> isNaN (Number_of val) \<and> trim val \<noteq> []"
| "isNumberSample CNull \<longleftrightarrow> False"

fun isDateSample :: "host \<Rightarrow> cell \<Rightarrow> bool" where
  "isDateSample h (CStr val) \<longleftrightarrow> dateParses h val \<and> length val > 5"
| "isDateSample h _ \<longleftrightarrow> False"

definition inferType :: "host \<Rightarrow> cell list \<Rightarrow> coltype" where
  "inferType h colSamples =
     (if length colSamples = 0 then TString
      else if list_all isBooleanSample colSamples then TBoolean
      else if list_all isNumberSample colSamples then TNumber
      else if list_all (isDateSample h) colSamples then TDate
      else TString)"

definition inferColumnTypes ::
  "host \<Rightarrow> string list \<Rightarrow> (string \<rightharpoonup> cell) list \<Rightarrow> (string \<rightharpoonup> coltype)" where
  "inferColumnTypes h cleanedColumns cleanedRows =
     (if length cleanedRows > 0 then
        let sampleSize = min 100 (length cleanedRows);
            sampleRows = take sampleSize cleanedRows
        in fold (\<lambda>col types. objSet types col (inferType h (colSamplesOf cleanedColumns sampleRows col)))
             cleanedColumns Map.empty
      else Map.empty)"

text \<open>\<open>Number(x)\<close> for the value a read of a row yields (\<^term>\<open>None\<close> is \<open>undefined\<close>).\<close>

definition Number_cell :: "cell option \<Rightarrow> jsnum" where
  "Number_cell x =
     (case x of
        None \<Rightarrow> NaN
      | Some CNull \<Rightarrow> Finite 0
      | Some (CStr s) \<Rightarrow> Number_of s
      | Some (CNum n) \<Rightarrow> n)"

text \<open>The body of \<open>cleanedRows.map(row => ...)\<close> of the final pass, on a copy of the row.\<close>

definition finalRow :: "(string \<rightharpoonup> coltype) \<Rightarrow> string list \<Rightarrow> (string \<rightharpoonup> cell) \<Rightarrow> (string \<rightharpoonup> cell)" where
  "finalRow types cleanedColumns row =
     fold (\<lambda>col newRow.
             if types col = Some TNumber \<and> newRow col \<noteq> Some CNull
             then objSet newRow col (CNum (Number_cell (newRow col)))
             else newRow)
       cleanedColumns row"

text \<open>
  The function itself. An array is never falsy, so the first test is the one for the empty
  array; the keys of an object are strings, so the filter on \<open>null\<close> and \<open>undefined\<close> keys
  keeps them all. The source's \<open>columns\<close> is \<open>originalColumns\<close> here.
\<close>

definition convertJsonToParsedData :: "host \<Rightarrow> jsval list \<Rightarrow> error + ParsedData" where
  "convertJsonToParsedData h jsonData =
     (case jsonData of
        [] \<Rightarrow> Inr emptyParsedData
      | firstRow # _ \<Rightarrow>
          (case Object_keys firstRow of
             Inl e \<Rightarrow> Inl e
           | Inr originalColumns \<Rightarrow>
               if length originalColumns = 0 then Inr emptyParsedData
               else
                 (let cleanedColumns = cleanColumns originalColumns in
                  case cleanRows h originalColumns jsonData of
                    Inl e \<Rightarrow> Inl e
                  | Inr cleanedRows \<Rightarrow>
                      (let types = inferColumnTypes h cleanedColumns cleanedRows;
                           finalRows = map (finalRow types cleanedColumns) cleanedRows
                       in Inr \<lparr>columns = cleanedColumns, rows = finalRows, columnTypes = types\<rparr>))))"

text \<open>
  A host for the closed runs below. Its date parser accepts the date-only ISO form
  \<open>YYYY-MM-DD\<close> alone, and its prototype chain supplies the members of \<open>Object.prototype\<close>,
  \<open>constructor\<close> and the \<open>length\<close> of strings and arrays, not the further methods of
  arrays and strings. No run below parses a date of more than five code units or reads an
  inherited member that exists.
\<close>

definition isoDate :: "string \<Rightarrow> bool" where
  "isoDate s \<longleftrightarrow>
     length s = 10 \<and> list_all isDigit (take 4 s) \<and> s ! 4 = CHR ''-'' \<and>
     list_all isDigit (take 2 (drop 5 s)) \<and> s ! 7 = CHR ''-'' \<and> list_all isDigit (drop 8 s) \<and>
     natOfDigits 10 (take 2 (drop 5 s)) \<in> {1..12} \<and> natOfDigits 10 (drop 8 s) \<in> {1..31}"

definition nativeFunction :: "string \<Rightarrow> jsval" where
  "nativeFunction name = JFun (''function '' @ name @ ''() { [native code] }'')"

definition constructorName :: "jsval \<Rightarrow> string" where
  "constructorName v =
     (case v of
        JArr xs \<Rightarrow> ''Array''
      | JStr s \<Rightarrow> ''String''
      | JNum t \<Rightarrow> ''Number''
      | JBool b \<Rightarrow> ''Boolean''
      | JFun t \<Rightarrow> ''Function''
      | _ \<Rightarrow> ''Object'')"

definition objectPrototype :: "jsval \<Rightarrow> string \<Rightarrow> jsval" where
  "objectPrototype v k =
     (if k = ''constructor'' then nativeFunction (constructorName v)
      else if k = ''length'' then
        (case v of
           JStr s \<Rightarrow> JNum (showNat (length s))
         | JArr xs \<Rightarrow> JNum (showNat (length xs))
         | _ \<Rightarrow> JUndefined)
      else if k \<in> set [''hasOwnProperty'', ''isPrototypeOf'', ''propertyIsEnumerable'',
                        ''toLocaleString'', ''toString'', ''valueOf'']
      then nativeFunction k
      else if k = ''__proto__'' then JObj []
      else JUndefined)"

definition refHost :: host where
  "refHost = \<lparr>dateParses = isoDate, inherited = objectPrototype\<rparr>"

section \<open>Notions the properties are stated with\<close>

text \<open>A text without comma that is not empty and neither starts nor ends with whitespace.\<close>

definition isCleanText :: "string \<Rightarrow> bool" where
  "isCleanText s \<longleftrightarrow>
     s \<noteq> [] \<and> CHR '','' \<notin> set s \<and> \<not> isWhiteSpace (hd s) \<and> \<not> isWhiteSpace (last s)"

definition isNullish :: "jsval \<Rightarrow> bool" where
  "isNullish v \<longleftrightarrow> v = JNull \<or> v = JUndefined"

text \<open>What a returned table holds; \<^term>\<open>None\<close> when the call raised instead (and, for a
  cell, when the row does not exist or has no such key).\<close>

definition resultColumns :: "error + ParsedData \<Rightarrow> string list option" where
  "resultColumns r = (case r of Inl e \<Rightarrow> None | Inr t \<Rightarrow> Some (columns t))"

definition resultType :: "error + ParsedData \<Rightarrow> string \<Rightarrow> coltype option" where
  "resultType r c = (case r of Inl e \<Rightarrow> None | Inr t \<Rightarrow> columnTypes t c)"

definition resultCell :: "error + ParsedData \<Rightarrow> nat \<Rightarrow> string \<Rightarrow> cell option" where
  "resultCell r j c =
     (case r of
        Inl e \<Rightarrow> None
      | Inr t \<Rightarrow> if j < length (rows t) then (rows t ! j) c else None)"

text \<open>
  The sample of a column as the specification words it: the non-null cleaned values the
  first \<open>min(100, rowCount)\<close> cleaned rows hold under the column's name.
\<close>

definition spec_sample :: "(string \<rightharpoonup> cell) list \<Rightarrow> string \<Rightarrow> cell list" where
  "spec_sample cleanedRows col =
     concat (map (\<lambda>row. presentValue (row col))
               (take (min 100 (length cleanedRows)) cleanedRows))"



text \<open>A record cleans when it can be read and \<^const>\<open>cleanValue\<close> returns for the value
  under each key of the first record.\<close>

definition rowCleans :: "host \<Rightarrow> string list \<Rightarrow> jsval \<Rightarrow> bool" where
  "rowCleans h ks row \<longleftrightarrow>
     \<not> isNullish row \<and> list_all (\<lambda>k. cleanValue (propValue h row k) \<noteq> Inl TypeError) ks"

text \<open>The cleaned row of a record, by \<^const>\<open>cleanRow\<close> (the empty row for a record
  that raises, for which no table is built).\<close>

definition cleanedRowOf :: "host \<Rightarrow> string list \<Rightarrow> jsval \<Rightarrow> (string \<rightharpoonup> cell)" where
  "cleanedRowOf h ks row =
     (case cleanRow h row (zip ks (cleanColumns ks)) (Map.empty, False) of
        Inl e \<Rightarrow> Map.empty
      | Inr cleanedRow \<Rightarrow> cleanedRow)"

text \<open>The cell \<^const>\<open>cleanRow\<close> writes for a key whose value cleans.\<close>

definition cellAt :: "host \<Rightarrow> jsval \<Rightarrow> string \<Rightarrow> cell" where
  "cellAt h row k = (case cleanValue (propValue h row k) of Inl e \<Rightarrow> CNull | Inr r \<Rightarrow> toCell r)"

text \<open>The table built from the first record's keys \<open>ks\<close> when no record raises: the
  three stages of \<^const>\<open>convertJsonToParsedData\<close> on the cleaned rows.\<close>

definition tableOf :: "host \<Rightarrow> string list \<Rightarrow> jsval list \<Rightarrow> ParsedData" where
  "tableOf h ks jsonData =
     (let cleanedColumns = cleanColumns ks;
          cleanedRows = map (cleanedRowOf h ks) jsonData;
          types = inferColumnTypes h cleanedColumns cleanedRows
      in \<lparr>columns = cleanedColumns,
          rows = map (finalRow types cleanedColumns) cleanedRows,
          columnTypes = types\<rparr>)"

text \<open>A run of 101 records with one key: the text \<open>1\<close> in the first hundred, \<open>x\<close> in
  the last.\<close>

definition longInput :: "jsval list" where
  "longInput = JObj [(''n'', JStr ''1'')] # replicate 99 (JObj [(''n'', JStr ''1'')]) @ [JObj [(''n'', JStr ''x'')]]"

section \<open>Trimming and cleaning\<close>

lemma strip_hd:
  assumes ne: "rev (dropWhile P (rev (dropWhile P s))) \<noteq> []"
  shows "\<not> P (hd (rev (dropWhile P (rev (dropWhile P s)))))"
proof -
  let ?u = "dropWhile P s"
  let ?v = "dropWhile P (rev ?u)"
  from ne have v: "?v \<noteq> []" by simp
  then have u: "?u \<noteq> []" by (metis dropWhile.simps(1) rev_is_Nil_conv)
  have "rev ?u = takeWhile P (rev ?u) @ ?v" by simp
  then have "last (rev ?u) = last ?v" using v by (metis last_appendR)
  then have "last ?v = hd ?u" using u by (simp add: last_rev)
  moreover have "\<not> P (hd ?u)" using u by (rule hd_dropWhile)
  ultimately show ?thesis using v by (simp add: hd_rev)
qed

lemma strip_last:
  assumes ne: "rev (dropWhile P (rev (dropWhile P s))) \<noteq> []"
  shows "\<not> P (last (rev (dropWhile P (rev (dropWhile P s)))))"
proof -
  from ne have "dropWhile P (rev (dropWhile P s)) \<noteq> []" by simp
  then show ?thesis by (simp add: last_rev hd_dropWhile)
qed

lemma strip_set: "set (rev (dropWhile P (rev (dropWhile P s)))) \<subseteq> set s"
proof -
  have "set (dropWhile P (rev (dropWhile P s))) \<subseteq> set (rev (dropWhile P s))"
    by (rule set_dropWhileD[THEN subsetI])
  also have "\<dots> \<subseteq> set s" using set_dropWhileD by fastforce
  finally show ?thesis by simp
qed

lemma strip_id:
  assumes "s = [] \<or> (\<not> P (hd s) \<and> \<not> P (last s))"
  shows "rev (dropWhile P (rev (dropWhile P s))) = s"
proof (cases s)
  case Nil
  then show ?thesis by simp
next
  case (Cons a as)
  with assms have a: "\<not> P a" and l: "\<not> P (last s)" by auto
  from a Cons have 1: "dropWhile P s = s" by simp
  from Cons obtain y ys where r: "rev s = y # ys" by (cases "rev s") auto
  have "hd (rev s) = last s" using Cons by (simp add: hd_rev)
  with r l have "\<not> P y" by simp
  then have "dropWhile P (y # ys) = y # ys" by simp
  then have "dropWhile P (rev s) = rev s" using r by simp
  with 1 show ?thesis by simp
qed

lemma set_replaceFirst: "set (replaceFirst ps s) \<subseteq> set s"
proof (induction s)
  case Nil
  then show ?case by simp
next
  case (Cons c cs)
  have "set (drop (length ps) (c # cs)) \<subseteq> set (c # cs)" by (rule set_drop_subset)
  with Cons show ?case by auto
qed

lemma cleanValue_clean:
  assumes "cleanValue v = Inr (Some s)"
  shows "isCleanText s"
proof -
  from assms have nn: "v \<noteq> JNull" "v \<noteq> JUndefined"
    by (auto simp: cleanValue_def)
  from assms nn obtain raw where raw: "String_of v = Inr raw"
    by (cases "String_of v") (simp_all add: cleanValue_def)
  let ?u = "trim (replaceFirst approxRegex (removeCommas (trim raw)))"
  from assms nn raw have "(if isNullMarker ?u then None else Some ?u) = Some s"
    by (simp add: cleanValue_def Let_def)
  then have s: "s = ?u" and "\<not> isNullMarker s"
    by (simp_all split: if_splits)
  then have ne: "s \<noteq> []" by (simp add: isNullMarker_def)
  have "set s \<subseteq> set (removeCommas (trim raw))"
    unfolding s trim_def using strip_set set_replaceFirst by (rule subset_trans)
  then have "CHR '','' \<notin> set s" by (auto simp: removeCommas_def)
  moreover have "\<not> isWhiteSpace (hd s)" using ne unfolding s trim_def by (rule strip_hd)
  moreover have "\<not> isWhiteSpace (last s)" using ne unfolding s trim_def by (rule strip_last)
  ultimately show ?thesis using ne by (simp add: isCleanText_def)
qed

lemma error_is_TypeError: "(e :: error) = TypeError"
  by (cases e) simp

lemma not_raises_iff: "(x \<noteq> Inl TypeError) = (\<exists>r. x = Inr r)"
  by (cases x) (simp_all add: error_is_TypeError)

section \<open>Rows\<close>

lemma fold_rowSet_other:
  "c \<notin> snd ` set ps \<Longrightarrow> fst (fold (\<lambda>(k, c') obj. rowSet obj c' (g k)) ps obj) c = fst obj c"
  by (induction ps arbitrary: obj) (auto simp: rowSet_def split: prod.splits)

lemma fold_rowSet_last:
  "i < length ps \<Longrightarrow> snd (ps ! i) \<notin> snd ` set (drop (Suc i) ps) \<Longrightarrow> snd (ps ! i) \<noteq> ''__proto__'' \<Longrightarrow>
   fst (fold (\<lambda>(k, c') obj. rowSet obj c' (g k)) ps obj) (snd (ps ! i)) = Some (g (fst (ps ! i)))"
proof (induction ps arbitrary: i obj)
  case Nil
  then show ?case by simp
next
  case (Cons p ps)
  show ?case
  proof (cases i)
    case 0
    obtain k c where p: "p = (k, c)" by (cases p)
    with 0 Cons.prems have c: "c \<notin> snd ` set ps" and "c \<noteq> ''__proto__''" by auto
    then have "fst (rowSet obj c (g k)) c = Some (g k)" by (simp add: rowSet_def split: prod.splits)
    then show ?thesis using 0 p fold_rowSet_other[OF c, of g "rowSet obj c (g k)"] by simp
  next
    case (Suc i')
    with Cons.prems have "i' < length ps" "snd (ps ! i') \<notin> snd ` set (drop (Suc i') ps)"
      "snd (ps ! i') \<noteq> ''__proto__''"
      by auto
    from Cons.IH[OF this] show ?thesis using Suc by simp
  qed
qed

lemma fold_rowSet_dom:
  "dom (fst (fold (\<lambda>(k, c') obj. rowSet obj c' (g k)) ps obj)) \<subseteq> dom (fst obj) \<union> snd ` set ps \<and>
   (dom (fst obj) \<union> snd ` set ps) - {''__proto__''}
     \<subseteq> dom (fst (fold (\<lambda>(k, c') obj. rowSet obj c' (g k)) ps obj))"
proof (induction ps arbitrary: obj)
  case Nil
  then show ?case by auto
next
  case (Cons p ps)
  obtain k c where p: "p = (k, c)" by (cases p)
  have 1: "dom (fst (rowSet obj c (g k))) \<subseteq> insert c (dom (fst obj))"
    by (auto simp: rowSet_def split: prod.splits if_splits)
  have 2: "insert c (dom (fst obj)) - {''__proto__''} \<subseteq> dom (fst (rowSet obj c (g k)))"
    by (auto simp: rowSet_def split: prod.splits if_splits)
  let ?F = "\<lambda>(k, c') obj. rowSet obj c' (g k)"
  let ?o = "rowSet obj c (g k)"
  have fo: "fold ?F (p # ps) obj = fold ?F ps ?o" by (simp add: p)
  have s: "snd ` set (p # ps) = insert c (snd ` set ps)" by (simp add: p)
  from Cons[of ?o] have 3: "dom (fst (fold ?F ps ?o)) \<subseteq> dom (fst ?o) \<union> snd ` set ps"
    and 4: "(dom (fst ?o) \<union> snd ` set ps) - {''__proto__''} \<subseteq> dom (fst (fold ?F ps ?o))"
    by blast+
  have sets: "B \<subseteq> D \<union> insert c S \<and> (D \<union> insert c S) - X \<subseteq> B"
    if "A \<subseteq> insert c D" "insert c D - X \<subseteq> A" "B \<subseteq> A \<union> S" "(A \<union> S) - X \<subseteq> B"
    for A B D S X :: "string set"
    using that by blast
  show ?case unfolding fo s by (rule sets[OF 1 2 3 4])
qed

lemma fold_rowSet_ran:
  "(\<forall>c x. fst obj c = Some x \<longrightarrow> P x) \<Longrightarrow> (\<forall>k. P (g k)) \<Longrightarrow>
   fst (fold (\<lambda>(k, c') obj. rowSet obj c' (g k)) ps obj) c = Some x \<Longrightarrow> P x"
proof (induction ps arbitrary: obj)
  case Nil
  then show ?case by simp
next
  case (Cons p ps)
  obtain k c' where p: "p = (k, c')" by (cases p)
  have "\<forall>c x. fst (rowSet obj c' (g k)) c = Some x \<longrightarrow> P x"
    using Cons.prems(1,2) by (auto simp: rowSet_def split: prod.splits if_splits)
  from Cons.IH[OF this Cons.prems(2)] Cons.prems(3) show ?case by (simp add: p)
qed

lemma cleanRow_fold:
  "cleanRow h row ps obj =
     (if ps = [] \<or> (\<not> isNullish row \<and> (\<forall>k\<in>fst ` set ps. cleanValue (propValue h row k) \<noteq> Inl TypeError))
      then Inr (fst (fold (\<lambda>(k, c) obj. rowSet obj c (cellAt h row k)) ps obj))
      else Inl TypeError)"
proof (induction ps arbitrary: obj)
  case Nil
  then show ?case by simp
next
  case (Cons p ps)
  obtain k c where p: "p = (k, c)" by (cases p)
  show ?case
  proof (cases "isNullish row")
    case True
    then show ?thesis by (simp add: p getProp_def isNullish_def)
  next
    case nn: False
    then have g: "getProp h row k = Inr (propValue h row k)" by (simp add: getProp_def isNullish_def)
    show ?thesis
    proof (cases "cleanValue (propValue h row k)")
      case (Inl e)
      then show ?thesis by (simp add: p g error_is_TypeError)
    next
      case (Inr r)
      then have "cellAt h row k = toCell r" by (simp add: cellAt_def)
      then show ?thesis using Inr nn Cons[of "rowSet obj c (toCell r)"] by (auto simp: p g)
    qed
  qed
qed

lemma mapE_Inr_iff:
  "mapE f xs = Inr ys \<longleftrightarrow> length ys = length xs \<and> (\<forall>j<length xs. f (xs ! j) = Inr (ys ! j))"
proof (induction xs arbitrary: ys)
  case Nil then show ?case by auto
next
  case (Cons x xs)
  show ?case
  proof (cases ys)
    case Nil then show ?thesis by (simp split: sum.splits)
  next
    case c: (Cons y ys')
    have "mapE f (x # xs) = Inr (y # ys') \<longleftrightarrow> f x = Inr y \<and> mapE f xs = Inr ys'"
      by (simp split: sum.splits)
    also have "\<dots> \<longleftrightarrow> f x = Inr y \<and> length ys' = length xs \<and> (\<forall>j<length xs. f (xs ! j) = Inr (ys' ! j))"
      using Cons.IH[of ys'] by simp
    also have "\<dots> \<longleftrightarrow> length (y # ys') = length (x # xs) \<and> (\<forall>j<length (x # xs). f ((x # xs) ! j) = Inr ((y # ys') ! j))"
      by (auto simp: All_less_Suc2)
    finally show ?thesis using c by simp
  qed
qed

lemma fst_zip_cleanColumns: "fst ` set (zip ks (cleanColumns ks)) = set ks"
proof -
  have "map fst (zip ks (cleanColumns ks)) = ks" by (simp add: cleanColumns_def)
  then have "set (map fst (zip ks (cleanColumns ks))) = set ks" by simp
  then show ?thesis by simp
qed

lemma cleanRow_columns:
  assumes "ks \<noteq> []"
  shows "cleanRow h row (zip ks (cleanColumns ks)) (Map.empty, False) =
           (if rowCleans h ks row then Inr (cleanedRowOf h ks row) else Inl TypeError)"
proof -
  have cc: "cleanColumns ks \<noteq> []"
    using assms by (cases ks) (auto simp: cleanColumns_def enumerate_eq_zip)
  show ?thesis
    unfolding cleanedRowOf_def
    by (subst (1 2) cleanRow_fold)
      (simp add: assms cc fst_zip_cleanColumns rowCleans_def list_all_iff)
qed

lemma cleanedRowOf_fold:
  assumes "rowCleans h ks row"
  shows "cleanedRowOf h ks row =
           fst (fold (\<lambda>(k, c) obj. rowSet obj c (cellAt h row k)) (zip ks (cleanColumns ks)) (Map.empty, False))"
  using assms unfolding cleanedRowOf_def
  by (subst cleanRow_fold) (simp add: fst_zip_cleanColumns rowCleans_def list_all_iff)

lemma cleanRows_Inr:
  assumes "ks \<noteq> []"
  shows "cleanRows h ks d = Inr crs \<longleftrightarrow>
           (\<forall>row\<in>set d. rowCleans h ks row) \<and> crs = map (cleanedRowOf h ks) d"
proof -
  note f = cleanRow_columns[OF assms]
  show ?thesis
  proof
    assume a: "cleanRows h ks d = Inr crs"
    then have len: "length crs = length d"
      and el: "\<forall>j<length d. cleanRow h (d ! j) (zip ks (cleanColumns ks)) (Map.empty, False) = Inr (crs ! j)"
      by (simp_all add: cleanRows_def mapE_Inr_iff)
    have 1: "\<forall>row\<in>set d. rowCleans h ks row"
    proof
      fix v assume "v \<in> set d"
      then obtain j where "j < length d" "d ! j = v" by (auto simp: in_set_conv_nth)
      with el f[of h v] show "rowCleans h ks v" by (auto split: if_splits)
    qed
    have 2: "crs = map (cleanedRowOf h ks) d"
    proof (rule nth_equalityI)
      show "length crs = length (map (cleanedRowOf h ks) d)" using len by simp
    next
      fix j assume "j < length crs"
      then have j: "j < length d" using len by simp
      then have "rowCleans h ks (d ! j)" using 1 by simp
      with el j f[of h "d ! j"] show "crs ! j = map (cleanedRowOf h ks) d ! j" by simp
    qed
    from 1 2 show "(\<forall>row\<in>set d. rowCleans h ks row) \<and> crs = map (cleanedRowOf h ks) d" ..
  next
    assume b: "(\<forall>row\<in>set d. rowCleans h ks row) \<and> crs = map (cleanedRowOf h ks) d"
    then show "cleanRows h ks d = Inr crs"
      by (simp add: cleanRows_def mapE_Inr_iff f)
  qed
qed

section \<open>Types and the final pass\<close>

lemma fold_types:
  "m ''__proto__'' = None \<Longrightarrow>
   fold (\<lambda>col types. objSet types col (f col)) cols m c =
     (if c \<in> set cols \<and> c \<noteq> ''__proto__'' then Some (f c) else m c)"
proof (induction cols arbitrary: m)
  case Nil
  then show ?case by simp
next
  case (Cons col cols)
  have "objSet m col (f col) ''__proto__'' = None"
    using Cons.prems by (simp add: objSet_def)
  from Cons.IH[of "objSet m col (f col)", OF this] Cons.prems show ?case
    by (auto simp: objSet_def)
qed

lemma inferColumnTypes_apply:
  "crs \<noteq> [] \<Longrightarrow>
   inferColumnTypes h cc crs c =
     (if c \<in> set cc \<and> c \<noteq> ''__proto__''
      then Some (inferType h (colSamplesOf cc (take (min 100 (length crs)) crs) c)) else None)"
  by (simp add: inferColumnTypes_def Let_def fold_types)

lemma inferColumnTypes_proto: "inferColumnTypes h cc crs ''__proto__'' = None"
  by (simp add: inferColumnTypes_def Let_def fold_types)

lemma Number_cell_CNum: "Number_cell (Some (CNum n)) = n"
  by (simp add: Number_cell_def)

lemma finalRow_apply:
  assumes "types ''__proto__'' \<noteq> Some TNumber"
  shows "finalRow types cols row c =
     (if c \<in> set cols \<and> types c = Some TNumber \<and> row c \<noteq> Some CNull
      then Some (CNum (Number_cell (row c))) else row c)"
  unfolding finalRow_def
proof (induction cols arbitrary: row)
  case Nil
  then show ?case by simp
next
  case (Cons col cols)
  let ?step = "\<lambda>col newRow. if types col = Some TNumber \<and> newRow col \<noteq> Some CNull
             then objSet newRow col (CNum (Number_cell (newRow col))) else newRow"
  have "fold ?step (col # cols) row c = fold ?step cols (?step col row) c" by simp
  also have "\<dots> = (if c \<in> set cols \<and> types c = Some TNumber \<and> ?step col row c \<noteq> Some CNull
      then Some (CNum (Number_cell (?step col row c))) else ?step col row c)"
    by (rule Cons.IH)
  also have "\<dots> = (if c \<in> set (col # cols) \<and> types c = Some TNumber \<and> row c \<noteq> Some CNull
      then Some (CNum (Number_cell (row c))) else row c)"
    using assms by (auto simp: objSet_def Number_cell_CNum)
  finally show ?case .
qed

lemma convert_Inr:
  assumes "Object_keys first = Inr ks" and "ks \<noteq> []"
  shows "convertJsonToParsedData h (first # rest) = Inr t \<longleftrightarrow>
           (\<forall>row\<in>set (first # rest). rowCleans h ks row) \<and> t = tableOf h ks (first # rest)"
proof (cases "cleanRows h ks (first # rest)")
  case (Inl e)
  then have "\<not> (\<forall>row\<in>set (first # rest). rowCleans h ks row)"
    using cleanRows_Inr[OF assms(2), of h "first # rest"] by auto
  moreover have "convertJsonToParsedData h (first # rest) = Inl e"
    using assms Inl by (simp add: convertJsonToParsedData_def)
  ultimately show ?thesis by auto
next
  case (Inr crs)
  then have "\<forall>row\<in>set (first # rest). rowCleans h ks row"
    and crs: "crs = map (cleanedRowOf h ks) (first # rest)"
    using cleanRows_Inr[OF assms(2), of h "first # rest" crs] by auto
  moreover have "convertJsonToParsedData h (first # rest) = Inr (tableOf h ks (first # rest))"
    using assms Inr unfolding crs by (simp add: convertJsonToParsedData_def tableOf_def Let_def)
  ultimately show ?thesis by auto
qed

lemma convert_cases:
  assumes "convertJsonToParsedData h jsonData = Inr t"
  obtains (empty) "t = emptyParsedData"
  | (table) first rest ks where "jsonData = first # rest" and "Object_keys first = Inr ks"
      and "ks \<noteq> []" and "\<forall>row\<in>set jsonData. rowCleans h ks row" and "t = tableOf h ks jsonData"
proof (cases jsonData)
  case Nil
  with assms have "t = emptyParsedData" by (simp add: convertJsonToParsedData_def)
  then show ?thesis by (rule empty)
next
  case (Cons first rest)
  show ?thesis
  proof (cases "Object_keys first")
    case (Inl e)
    with assms Cons show ?thesis by (simp add: convertJsonToParsedData_def)
  next
    case (Inr ks)
    show ?thesis
    proof (cases "ks = []")
      case True
      with assms Cons Inr have "t = emptyParsedData" by (simp add: convertJsonToParsedData_def)
      then show ?thesis by (rule empty)
    next
      case False
      from assms convert_Inr[OF Inr False, of h rest t] Cons
      have "\<forall>row\<in>set jsonData. rowCleans h ks row" and "t = tableOf h ks jsonData" by auto
      with Cons Inr False show ?thesis by (rule table)
    qed
  qed
qed

lemma convert_returns_iff:
  "(\<exists>t. convertJsonToParsedData h jsonData = Inr t) \<longleftrightarrow>
     jsonData = [] \<or>
     (\<exists>ks. Object_keys (hd jsonData) = Inr ks \<and> (ks = [] \<or> (\<forall>row\<in>set jsonData. rowCleans h ks row)))"
proof (cases jsonData)
  case Nil
  then show ?thesis by (simp add: convertJsonToParsedData_def)
next
  case (Cons first rest)
  show ?thesis
  proof (cases "Object_keys first")
    case (Inl e)
    with Cons show ?thesis by (simp add: convertJsonToParsedData_def)
  next
    case (Inr ks)
    show ?thesis
    proof (cases "ks = []")
      case True
      with Cons Inr show ?thesis by (simp add: convertJsonToParsedData_def)
    next
      case False
      have "(\<exists>t. convertJsonToParsedData h (first # rest) = Inr t) \<longleftrightarrow>
            (\<forall>row\<in>set (first # rest). rowCleans h ks row)"
        using convert_Inr[OF Inr False, of h rest] by blast
      with Cons Inr False show ?thesis by simp
    qed
  qed
qed

section \<open>Evaluation of concrete runs\<close>

lemmas table_defs = convertJsonToParsedData_def Object_keys_def ownProps_def cleanRows_def
  getProp_def propValue_def objSet_def rowSet_def toCell_def inferColumnTypes_def colSamplesOf_def
  inferType_def finalRow_def Number_cell_def resultColumns_def resultType_def resultCell_def
  emptyParsedData_def Let_def

lemmas row_defs = cleanedRowOf_def getProp_def propValue_def ownProps_def rowSet_def toCell_def
  isNullish_def

lemma keys_of_object: "Object_keys (JObj kvs) = Inr (remdups (map fst kvs))"
  by (simp add: Object_keys_def ownProps_def)

section \<open>The shape of cleaned cells\<close>

lemma cleanedRowOf_clean:
  assumes "cleanedRowOf h ks row c = Some x" and "x \<noteq> CNull"
  shows "\<exists>s. x = CStr s \<and> isCleanText s"
proof -
  let ?P = "\<lambda>x. x = CNull \<or> (\<exists>s. x = CStr s \<and> isCleanText s)"
  let ?F = "\<lambda>(k, c') obj. rowSet obj c' (cellAt h row k)"
  let ?ps = "zip ks (cleanColumns ks)"
  have "cleanedRowOf h ks row =
      (if ?ps = [] \<or> (\<not> isNullish row \<and>
            (\<forall>k\<in>fst ` set ?ps. cleanValue (propValue h row k) \<noteq> Inl TypeError))
       then fst (fold ?F ?ps (Map.empty, False)) else Map.empty)"
    unfolding cleanedRowOf_def by (subst cleanRow_fold) simp
  with assms(1) have f: "fst (fold ?F ?ps (Map.empty, False)) c = Some x"
    by (simp split: if_splits)
  have "?P x"
  proof (rule fold_rowSet_ran[where P = ?P and g = "cellAt h row", OF _ _ f])
    show "\<forall>c x. fst (Map.empty, False) c = Some x \<longrightarrow> ?P x" by simp
    show "\<forall>k. ?P (cellAt h row k)"
      by (auto simp: cellAt_def toCell_def cleanValue_clean split: sum.splits option.splits)
  qed
  with assms(2) show ?thesis by simp
qed

text \<open>
  Claim C10. Every non-null value \<^const>\<open>cleanValue\<close> returns is a non-empty string
  without a comma and without leading or trailing whitespace; therefore so is every
  non-null cell, in the returned table, of a column that is not typed \<open>number\<close>.
\<close>

theorem cleaned_cells_are_clean_text:
  "(cleanValue v = Inr (Some s) \<longrightarrow> isCleanText s) \<and>
   (convertJsonToParsedData h jsonData = Inr t \<and> r \<in> set (rows t) \<and>
      columnTypes t c \<noteq> Some TNumber \<and> r c = Some x \<and> x \<noteq> CNull
    \<longrightarrow> (\<exists>s'. x = CStr s' \<and> isCleanText s'))"
proof (intro conjI impI)
  assume "cleanValue v = Inr (Some s)"
  then show "isCleanText s" by (rule cleanValue_clean)
next
  assume a: "convertJsonToParsedData h jsonData = Inr t \<and> r \<in> set (rows t) \<and>
      columnTypes t c \<noteq> Some TNumber \<and> r c = Some x \<and> x \<noteq> CNull"
  then have conv: "convertJsonToParsedData h jsonData = Inr t" by simp
  from conv show "\<exists>s'. x = CStr s' \<and> isCleanText s'"
  proof (cases rule: convert_cases)
    case empty
    with a show ?thesis by (simp add: emptyParsedData_def)
  next
    case (table first rest ks)
    let ?types = "inferColumnTypes h (cleanColumns ks) (map (cleanedRowOf h ks) jsonData)"
    from table(5) a obtain row where "r = finalRow ?types (cleanColumns ks) (cleanedRowOf h ks row)"
      by (auto simp: tableOf_def Let_def)
    moreover from table(5) a have "?types c \<noteq> Some TNumber" by (simp add: tableOf_def Let_def)
    ultimately have "r c = cleanedRowOf h ks row c"
      by (simp add: finalRow_apply inferColumnTypes_proto)
    with a have "cleanedRowOf h ks row c = Some x" and "x \<noteq> CNull" by simp_all
    then show ?thesis by (rule cleanedRowOf_clean)
  qed
qed

theorem cleaned_cells_witness:
  "isCleanText ''1234 ()'' \<and>
   resultCell (convertJsonToParsedData refHost [JObj [(''Name'', JStr '' Kumar, Ravi '')]]) 0 ''Name''
     = Some (CStr ''Kumar Ravi'') \<and> isCleanText ''Kumar Ravi''"
proof -
  let ?d = "[JObj [(''Name'', JStr '' Kumar, Ravi '')]]"
  let ?t = "tableOf refHost [''Name''] ?d"
  have cols: "cleanColumns [''Name''] = [''Name'']" by code_simp
  have v1: "cleanValue (JStr '' Kumar, Ravi '') = Inr (Some ''Kumar Ravi'')" by code_simp
  have v2: "cleanValue (JStr ''1,234 (Approx.)'') = Inr (Some ''1234 ()'')" by code_simp
  have n1: "\<not> isNumberSample (CStr ''Kumar Ravi'')" by code_simp
  have ks: "Object_keys (JObj [(''Name'', JStr '' Kumar, Ravi '')]) = Inr [''Name'']"
    by (simp add: keys_of_object)
  have rc: "rowCleans refHost [''Name''] (JObj [(''Name'', JStr '' Kumar, Ravi '')])"
    by (simp add: rowCleans_def isNullish_def propValue_def ownProps_def v1)
  have conv: "convertJsonToParsedData refHost ?d = Inr ?t"
    by (simp add: convert_Inr[OF ks] rc)
  have row: "rows ?t ! 0 \<in> set (rows ?t)" by (simp add: tableOf_def Let_def)
  have cr: "cleanedRowOf refHost [''Name''] (JObj [(''Name'', JStr '' Kumar, Ravi '')]) ''Name''
      = Some (CStr ''Kumar Ravi'')"
    by (simp add: row_defs cols v1)
  have "CStr ''Kumar Ravi'' \<in> set (colSamplesOf [''Name'']
      (take (min 100 (length (map (cleanedRowOf refHost [''Name'']) ?d))) (map (cleanedRowOf refHost [''Name'']) ?d))
      ''Name'')"
    by (simp add: colSamplesOf_def cr)
  then have ty: "columnTypes ?t ''Name'' \<noteq> Some TNumber"
    using n1
    by (simp add: tableOf_def Let_def cols inferColumnTypes_apply inferType_def list_all_iff
        del: isNumberSample.simps) blast
  have cell: "(rows ?t ! 0) ''Name'' = Some (CStr ''Kumar Ravi'')"
    using ty by (simp add: tableOf_def Let_def finalRow_apply inferColumnTypes_proto cr)
  from cleaned_cells_are_clean_text[of "JStr ''1,234 (Approx.)''" "''1234 ()''" refHost ?d ?t
      "rows ?t ! 0" "''Name''" "CStr ''Kumar Ravi''"]
    v2 conv row ty cell
  have "isCleanText ''1234 ()'' \<and> isCleanText ''Kumar Ravi''" by simp
  moreover have "resultCell (convertJsonToParsedData refHost ?d) 0 ''Name'' = Some (CStr ''Kumar Ravi'')"
    using conv cell by (simp add: resultCell_def tableOf_def Let_def)
  ultimately show ?thesis by simp
qed

section \<open>Sanitized names\<close>

lemma wordChar_not_space: "isWordChar c \<Longrightarrow> \<not> isWhiteSpace c"
  by (auto simp: isWordChar_def isWhiteSpace_def)

lemma wordChar_not_edge: "isWordChar c \<Longrightarrow> \<not> isEdgeChar c"
  by (auto simp: isWordChar_def isEdgeChar_def isWhiteSpace_def)

lemma digitChar_word: "d < 10 \<Longrightarrow> isWordChar (digitChar d)"
proof -
  assume "d < 10"
  then have "d < length ''0123456789''" by simp
  then have "''0123456789'' ! d \<in> set ''0123456789''" by (rule nth_mem)
  moreover have "set ''0123456789'' \<subseteq> Collect isWordChar" by (simp add: isWordChar_def)
  ultimately show ?thesis unfolding digitChar_def by blast
qed

lemma showNat_word: "list_all isWordChar (showNat n)"
proof (induction n rule: showNat.induct)
  case (1 n)
  show ?case
  proof (cases "n < 10")
    case True
    then show ?thesis by (simp add: showNat.simps[of n] digitChar_word)
  next
    case False
    with 1 show ?thesis by (simp add: showNat.simps[of n] digitChar_word)
  qed
qed

lemma collapseSpaces_id: "\<forall>c\<in>set s. \<not> isWhiteSpace c \<Longrightarrow> collapseSpaces s = s"
  by (induction s) auto

lemma sanitizeColumn_word: "sanitizeColumn col i \<noteq> [] \<and> list_all isWordChar (sanitizeColumn col i)"
proof -
  have "list_all isWordChar ''Column_''" by (simp add: isWordChar_def)
  then have "list_all isWordChar (''Column_'' @ showNat (i + 1))"
    using showNat_word[of "i + 1"] by (simp only: list_all_append simp_thms)
  moreover have "list_all isWordChar (filter isWordChar s)" for s by (simp add: list_all_iff)
  ultimately show ?thesis
    by (simp add: sanitizeColumn_def Let_def)
qed

lemma sanitizeColumn_fix:
  assumes "r \<noteq> []" and "list_all isWordChar r"
  shows "sanitizeColumn r j = r"
proof -
  from assms have h: "isWordChar (hd r)" and l: "isWordChar (last r)"
    by (simp_all add: list_all_iff)
  have 1: "trim r = r" unfolding trim_def
    using h l by (intro strip_id) (simp add: wordChar_not_space)
  have 2: "stripEdges r = r" unfolding stripEdges_def
    using h l by (intro strip_id) (simp add: wordChar_not_edge)
  have 3: "collapseSpaces r = r"
    using assms(2) by (intro collapseSpaces_id) (simp add: list_all_iff wordChar_not_space)
  have 4: "filter isWordChar r = r" using assms(2) by (simp add: list_all_iff)
  show ?thesis using assms(1) by (simp add: sanitizeColumn_def 1 2 3 4)
qed

text \<open>
  Claim C8. The sanitization of a column name (trim; strip the runs of \<open>#\<close>, \<open>-\<close> and
  whitespace at both ends; replace each inner run of whitespace by an underscore; remove
  every character outside \<open>[A-Za-z0-9_]\<close>; fall back to \<open>Column_<index + 1>\<close> when nothing
  is left) is idempotent: applied to a name it has produced, at any position, it returns
  that name unchanged.
\<close>

theorem sanitizeColumn_idempotent:
  "sanitizeColumn (sanitizeColumn col i) j = sanitizeColumn col i"
  using sanitizeColumn_word[of col i] by (simp add: sanitizeColumn_fix)

section \<open>The Row Cleaner on the literal (Approx.)\<close>

text \<open>
  Claim C1. The specification has \<^const>\<open>cleanValue\<close> remove the literal \<open>(Approx.)\<close>,
  parentheses included, so that \<open>cleanValue("1,234 (Approx.)")\<close> is \<open>"1234"\<close>. The regular
  expression of the code matches \<open>Approx\<close> and one more character only: the run below
  returns \<open>"1234 ()"\<close>, where the specification's reading returns \<open>"1234"\<close>.
\<close>

theorem cleanValue_approx_run:
  "cleanValue (JStr ''1,234 (Approx.)'') = Inr (Some ''1234 ()'') \<and>
   spec_cleanValue (JStr ''1,234 (Approx.)'') = Inr (Some ''1234'')"
  by code_simp

text \<open>
  Claim C6. The specification has \<^const>\<open>cleanValue\<close> return \<open>null\<close> exactly when the text
  left by trimming, comma removal and the removal of \<open>(Approx.)\<close> is one of the markers
  \<open>---\<close>, \<open>-\<close>, \<open>NIL\<close>, \<open>NA\<close> or empty. On \<open>"NIL (Approx.)"\<close> that text is \<open>NIL\<close>, yet the
  code returns \<open>"NIL ()"\<close>: its regular expression leaves the parentheses behind.
\<close>

theorem cleanValue_marker_run:
  "cleanValue (JStr ''NIL (Approx.)'') = Inr (Some ''NIL ()'') \<and>
   spec_cleanValue (JStr ''NIL (Approx.)'') = Inr None"
  by code_simp

text \<open>The four runs the specification lists, and the markers as the code tests them, on
  the text its own replacement leaves.\<close>

lemma cleanValue_examples:
  "cleanValue (JStr ''237,706'') = Inr (Some ''237706'')"
  "cleanValue (JStr ''NIL'') = Inr None"
  "cleanValue (JStr ''  '') = Inr None"
  "cleanValue JNull = Inr None"
  by code_simp+

lemma cleanValue_None_iff:
  "cleanValue v = Inr None \<longleftrightarrow>
     isNullish v \<or>
     (\<exists>raw. String_of v = Inr raw \<and>
        isNullMarker (trim (replaceFirst approxRegex (removeCommas (trim raw)))))"
  by (cases "String_of v") (simp_all add: cleanValue_def isNullish_def Let_def)

section \<open>Raising\<close>

text \<open>
  Claim C3, as the specification states it: \<^const>\<open>convertJsonToParsedData\<close> returns a
  table for every input array, also when its first element is \<open>null\<close>. It does not:
  \<open>Object.keys(null)\<close> raises a TypeError.
\<close>

theorem convert_null_record_raises:
  "convertJsonToParsedData refHost [JNull] = Inl TypeError"
  by (simp add: convertJsonToParsedData_def Object_keys_def)

text \<open>
  Claim C3, amended. \<^const>\<open>convertJsonToParsedData\<close> returns a table, raising no
  exception, exactly for these input arrays: the empty one; those whose first element is
  neither \<open>null\<close> nor \<open>undefined\<close> and has no key; and those without a \<open>null\<close> or
  \<open>undefined\<close> element in which \<open>String\<close> raises for no value read under a key of the
  first element. The degenerate cases among them resolve to \<open>string\<close> typing (a column
  without a sample) and \<open>null\<close> cells (an absent or \<open>null\<close> value).
\<close>

theorem convert_returns_iff_rows_clean:
  "((\<exists>t. convertJsonToParsedData h jsonData = Inr t) \<longleftrightarrow>
      jsonData = [] \<or>
      (\<exists>ks. Object_keys (hd jsonData) = Inr ks \<and>
         (ks = [] \<or> (\<forall>row\<in>set jsonData. rowCleans h ks row)))) \<and>
   inferType h [] = TString \<and>
   cleanValue JUndefined = Inr None \<and> cleanValue JNull = Inr None"
  by (simp add: convert_returns_iff inferType_def cleanValue_def)

theorem convert_returns_witness:
  "(\<exists>t. convertJsonToParsedData refHost
          [JStr ''ab'', JObj [(''0'', JStr ''x'')], JNum ''5'', JArr [JNull, JBool True], JObj []] = Inr t) \<and>
   (\<exists>t. convertJsonToParsedData refHost [JObj [], JNull] = Inr t) \<and>
   convertJsonToParsedData refHost [JObj [(''a'', JObj [(''toString'', JNum ''1'')])]] = Inl TypeError"
proof -
  let ?d = "[JStr ''ab'', JObj [(''0'', JStr ''x'')], JNum ''5'', JArr [JNull, JBool True], JObj []]"
  let ?bad = "[JObj [(''a'', JObj [(''toString'', JNum ''1'')])]]"
  note T = convert_returns_iff_rows_clean[THEN conjunct1]
  have k1: "Object_keys (hd ?d) = Inr [''0'', ''1'']" by code_simp
  have r1: "list_all (rowCleans refHost [''0'', ''1'']) ?d" by code_simp
  have 1: "\<exists>t. convertJsonToParsedData refHost ?d = Inr t"
    unfolding T[of refHost ?d] using k1 r1 by (simp only: list_all_iff) blast
  have k2: "Object_keys (hd [JObj [], JNull]) = Inr []" by (simp add: keys_of_object)
  have 2: "\<exists>t. convertJsonToParsedData refHost [JObj [], JNull] = Inr t"
    unfolding T[of refHost "[JObj [], JNull]"] using k2 by blast
  have k3: "Object_keys (hd ?bad) = Inr [''a'']" by (simp add: keys_of_object)
  have r3: "\<not> rowCleans refHost [''a''] (JObj [(''a'', JObj [(''toString'', JNum ''1'')])])" by code_simp
  have "\<not> (\<exists>t. convertJsonToParsedData refHost ?bad = Inr t)"
    unfolding T[of refHost ?bad] using k3 r3 by simp
  then have 3: "convertJsonToParsedData refHost ?bad = Inl TypeError"
    by (cases "convertJsonToParsedData refHost ?bad") (simp_all add: error_is_TypeError)
  from 1 2 3 show ?thesis by simp
qed

section \<open>The shape of the table\<close>

lemma length_cleanColumns: "length (cleanColumns ks) = length ks"
  by (simp add: cleanColumns_def)

lemma nth_cleanColumns: "i < length ks \<Longrightarrow> cleanColumns ks ! i = sanitizeColumn (ks ! i) i"
  by (simp add: cleanColumns_def nth_enumerate_eq)

lemma snd_zip_cleanColumns: "snd ` set (zip ks (cleanColumns ks)) = set (cleanColumns ks)"
proof -
  have "map snd (zip ks (cleanColumns ks)) = cleanColumns ks"
    by (simp add: length_cleanColumns)
  then have "set (map snd (zip ks (cleanColumns ks))) = set (cleanColumns ks)" by simp
  then show ?thesis by simp
qed

lemma dom_cleanedRowOf:
  assumes "rowCleans h ks row"
  shows "dom (cleanedRowOf h ks row) \<subseteq> set (cleanColumns ks) \<and>
         set (cleanColumns ks) - {''__proto__''} \<subseteq> dom (cleanedRowOf h ks row)"
  using fold_rowSet_dom[of "cellAt h row" "zip ks (cleanColumns ks)" "(Map.empty, False)"]
  by (simp add: cleanedRowOf_fold[OF assms] snd_zip_cleanColumns)

lemma cleanedRowOf_at:
  assumes "rowCleans h ks row"
    and "i < length ks"
    and "cleanColumns ks ! i \<notin> set (drop (Suc i) (cleanColumns ks))"
    and "cleanColumns ks ! i \<noteq> ''__proto__''"
  shows "cleanedRowOf h ks row (cleanColumns ks ! i) = Some (cellAt h row (ks ! i))"
proof -
  let ?ps = "zip ks (cleanColumns ks)"
  have len: "i < length ?ps" using assms(2) by (simp add: length_cleanColumns)
  have nth: "?ps ! i = (ks ! i, cleanColumns ks ! i)" using assms(2) by (simp add: length_cleanColumns)
  have "map snd (drop (Suc i) ?ps) = drop (Suc i) (cleanColumns ks)"
    by (simp add: drop_zip length_cleanColumns)
  then have "set (map snd (drop (Suc i) ?ps)) = set (drop (Suc i) (cleanColumns ks))" by simp
  then have later: "snd (?ps ! i) \<notin> snd ` set (drop (Suc i) ?ps)" using assms(3) nth by simp
  have "fst (fold (\<lambda>(k, c') obj. rowSet obj c' (cellAt h row k)) ?ps (Map.empty, False)) (snd (?ps ! i))
        = Some (cellAt h row (fst (?ps ! i)))"
    using len later by (rule fold_rowSet_last) (simp add: nth assms(4))
  then show ?thesis by (simp add: cleanedRowOf_fold[OF assms(1)] nth)
qed

lemma dom_finalRow:
  "types ''__proto__'' \<noteq> Some TNumber \<Longrightarrow>
   dom (finalRow types cols row) = dom row \<union> {c \<in> set cols. types c = Some TNumber}"
  by (auto simp: dom_def finalRow_apply split: if_splits)

lemma dom_inferColumnTypes:
  "crs \<noteq> [] \<Longrightarrow> dom (inferColumnTypes h cc crs) = set cc - {''__proto__''}"
  by (auto simp: dom_def inferColumnTypes_apply split: if_splits)

lemma dom_table_row:
  assumes "\<forall>row\<in>set d. rowCleans h ks row" and "r \<in> set (rows (tableOf h ks d))"
  shows "dom r \<subseteq> set (cleanColumns ks) \<and> set (cleanColumns ks) - {''__proto__''} \<subseteq> dom r"
proof -
  let ?types = "inferColumnTypes h (cleanColumns ks) (map (cleanedRowOf h ks) d)"
  from assms(2) obtain row where row: "row \<in> set d"
    and r: "r = finalRow ?types (cleanColumns ks) (cleanedRowOf h ks row)"
    by (auto simp: tableOf_def Let_def)
  have d: "dom r = dom (cleanedRowOf h ks row) \<union> {c \<in> set (cleanColumns ks). ?types c = Some TNumber}"
    unfolding r by (rule dom_finalRow) (simp add: inferColumnTypes_proto)
  from assms(1) row have "rowCleans h ks row" by simp
  from dom_cleanedRowOf[OF this] show ?thesis unfolding d by blast
qed

lemma table_row_nth:
  "j < length d \<Longrightarrow> rows (tableOf h ks d) ! j =
     finalRow (columnTypes (tableOf h ks d)) (cleanColumns ks) (cleanedRowOf h ks (d ! j))"
  by (simp add: tableOf_def Let_def)

lemma table_types_proto: "columnTypes (tableOf h ks d) ''__proto__'' \<noteq> Some TNumber"
  by (simp add: tableOf_def Let_def inferColumnTypes_proto)

section \<open>Samples and inferred types\<close>

lemma inferType_set_cong: "set xs = set ys \<Longrightarrow> inferType h xs = inferType h ys"
proof -
  assume e: "set xs = set ys"
  then have "(length xs = 0) = (length ys = 0)" by auto
  with e show ?thesis by (simp add: inferType_def list_all_iff)
qed


lemma set_presentValue: "set (presentValue x) = {v. x = Some v \<and> v \<noteq> CNull}"
  by (cases x rule: presentValue.cases) auto

lemma set_colSamplesOf:
  "c \<in> set cc \<Longrightarrow>
   set (colSamplesOf cc srows c) = {x. \<exists>row\<in>set srows. row c = Some x \<and> x \<noteq> CNull}"
  by (auto simp: colSamplesOf_def set_presentValue split: if_splits)

lemma set_spec_sample:
  "set (spec_sample crs c) =
     {x. \<exists>row\<in>set (take (min 100 (length crs)) crs). row c = Some x \<and> x \<noteq> CNull}"
  by (auto simp: spec_sample_def set_presentValue)



section \<open>The table invariants\<close>

text \<open>
  Claim C5, as the specification states it: \<open>columns\<close> never holds a name twice. The keys
  \<open>"A"\<close> and \<open>"A "\<close> of one record both sanitize to \<open>A\<close>, and the code removes no
  duplicate: \<open>columns\<close> is \<open>["A", "A"]\<close>.
\<close>

theorem duplicate_column_names:
  "resultColumns (convertJsonToParsedData refHost [JObj [(''A'', JStr ''1''), (''A '', JStr ''2'')]])
     = Some [''A'', ''A''] \<and> \<not> distinct [''A'', ''A'']"
proof -
  have cols: "cleanColumns [''A'', ''A ''] = [''A'', ''A'']" by code_simp
  have ks: "Object_keys (JObj [(''A'', JStr ''1''), (''A '', JStr ''2'')]) = Inr [''A'', ''A '']"
    by (simp add: keys_of_object)
  have rc: "rowCleans refHost [''A'', ''A ''] (JObj [(''A'', JStr ''1''), (''A '', JStr ''2'')])"
    by code_simp
  have "convertJsonToParsedData refHost [JObj [(''A'', JStr ''1''), (''A '', JStr ''2'')]]
      = Inr (tableOf refHost [''A'', ''A ''] [JObj [(''A'', JStr ''1''), (''A '', JStr ''2'')]])"
    by (simp add: convert_Inr[OF ks] rc)
  then show ?thesis by (simp add: resultColumns_def tableOf_def Let_def cols)
qed

text \<open>
  Claim C5, amended. The empty input and an input whose first record has no key yield
  the empty table. Otherwise \<open>columns\<close> holds, in key order, one name per key of the first
  record: the sanitized key, or \<open>Column_<1-based index>\<close> where the sanitization is empty
  (two keys with one sanitized name give a duplicate); there is one row per record; and
  when no column is named \<open>__proto__\<close>, every row has exactly the keys in \<open>columns\<close>, and so
  has \<open>columnTypes\<close>.
\<close>

theorem parsed_table_invariants:
  "convertJsonToParsedData h [] = Inr emptyParsedData \<and>
   (Object_keys first = Inr [] \<longrightarrow> convertJsonToParsedData h (first # rest) = Inr emptyParsedData) \<and>
   (convertJsonToParsedData h (first # rest) = Inr t \<and> Object_keys first = Inr ks \<and> ks \<noteq> [] \<longrightarrow>
      columns t = cleanColumns ks \<and> length (columns t) = length ks \<and>
      (\<forall>i<length ks. columns t ! i = sanitizeColumn (ks ! i) i) \<and>
      length (rows t) = length (first # rest) \<and>
      (''__proto__'' \<notin> set (columns t) \<longrightarrow>
         (\<forall>r\<in>set (rows t). dom r = set (columns t)) \<and> dom (columnTypes t) = set (columns t)))"
proof (intro conjI impI)
  show "convertJsonToParsedData h [] = Inr emptyParsedData"
    by (simp add: convertJsonToParsedData_def)
next
  assume "Object_keys first = Inr []"
  then show "convertJsonToParsedData h (first # rest) = Inr emptyParsedData"
    by (simp add: convertJsonToParsedData_def)
next
  assume a: "convertJsonToParsedData h (first # rest) = Inr t \<and> Object_keys first = Inr ks \<and> ks \<noteq> []"
  then have t: "t = tableOf h ks (first # rest)"
    and rc: "\<forall>row\<in>set (first # rest). rowCleans h ks row"
    using convert_Inr[of first ks h rest t] by simp_all
  show cols: "columns t = cleanColumns ks" by (simp add: t tableOf_def Let_def)
  show "length (columns t) = length ks" by (simp add: cols length_cleanColumns)
  show "\<forall>i<length ks. columns t ! i = sanitizeColumn (ks ! i) i" by (simp add: cols nth_cleanColumns)
  show "length (rows t) = length (first # rest)" by (simp add: t tableOf_def Let_def)
  assume p: "''__proto__'' \<notin> set (columns t)"
  show "\<forall>r\<in>set (rows t). dom r = set (columns t)"
  proof
    fix r assume "r \<in> set (rows t)"
    then have "r \<in> set (rows (tableOf h ks (first # rest)))" by (simp add: t)
    from dom_table_row[OF rc this] p show "dom r = set (columns t)" unfolding cols by blast
  qed
  have "dom (columnTypes t) = set (cleanColumns ks) - {''__proto__''}"
    unfolding t by (simp add: tableOf_def Let_def dom_inferColumnTypes)
  then show "dom (columnTypes t) = set (columns t)" using p cols by auto
qed

theorem parsed_table_invariants_witness:
  "convertJsonToParsedData refHost [] = Inr emptyParsedData \<and>
   convertJsonToParsedData refHost [JObj [], JObj [(''a'', JStr ''1'')]] = Inr emptyParsedData \<and>
   resultColumns (convertJsonToParsedData refHost [JObj [(''#'', JStr ''1''), (''Name'', JStr ''Ravi Kumar'')]])
     = Some [''Column_1'', ''Name''] \<and>
   dom (rows (tableOf refHost [''#'', ''Name''] [JObj [(''#'', JStr ''1''), (''Name'', JStr ''Ravi Kumar'')]]) ! 0)
     = {''Column_1'', ''Name''} \<and>
   dom (columnTypes (tableOf refHost [''#'', ''Name''] [JObj [(''#'', JStr ''1''), (''Name'', JStr ''Ravi Kumar'')]]))
     = {''Column_1'', ''Name''}"
proof -
  let ?first = "JObj [(''#'', JStr ''1''), (''Name'', JStr ''Ravi Kumar'')]"
  let ?t = "tableOf refHost [''#'', ''Name''] [?first]"
  have cols: "cleanColumns [''#'', ''Name''] = [''Column_1'', ''Name'']" by code_simp
  have ks: "Object_keys ?first = Inr [''#'', ''Name'']" by (simp add: keys_of_object)
  have rc: "rowCleans refHost [''#'', ''Name''] ?first" by code_simp
  have conv: "convertJsonToParsedData refHost [?first] = Inr ?t"
    by (simp add: convert_Inr[OF ks] rc)
  have ct: "columns ?t = [''Column_1'', ''Name'']" by (simp add: tableOf_def Let_def cols)
  have row: "rows ?t ! 0 \<in> set (rows ?t)" by (simp add: tableOf_def Let_def)
  have e: "Object_keys (JObj []) = Inr []" by (simp add: keys_of_object)
  note T0 = parsed_table_invariants[of refHost "JObj []" "[JObj [(''a'', JStr ''1'')]]" ?t "[]"]
  have 1: "convertJsonToParsedData refHost [] = Inr emptyParsedData" by (rule T0[THEN conjunct1])
  have 2: "convertJsonToParsedData refHost [JObj [], JObj [(''a'', JStr ''1'')]] = Inr emptyParsedData"
    by (rule mp[OF T0[THEN conjunct2, THEN conjunct1] e])
  have ne: "[''#'', ''Name''] \<noteq> ([] :: string list)" by simp
  note T1 = parsed_table_invariants[of refHost ?first "[]" ?t "[''#'', ''Name'']"]
  note T2 = mp[OF T1[THEN conjunct2, THEN conjunct2] conjI[OF conv conjI[OF ks ne]]]
  have np: "''__proto__'' \<notin> set (columns ?t)" by (simp add: ct)
  note T3 = mp[OF T2[THEN conjunct2, THEN conjunct2, THEN conjunct2, THEN conjunct2] np]
  from T3 row have "dom (rows ?t ! 0) = set (columns ?t)" by (elim conjE) (erule bspec)
  then have 3: "dom (rows ?t ! 0) = {''Column_1'', ''Name''}" by (simp only: ct) simp
  from T3 have "dom (columnTypes ?t) = set (columns ?t)" by (rule conjunct2)
  then have 4: "dom (columnTypes ?t) = {''Column_1'', ''Name''}" by (simp only: ct) simp
  from conv ct have 5: "resultColumns (convertJsonToParsedData refHost [?first]) = Some [''Column_1'', ''Name'']"
    by (simp add: resultColumns_def)
  from 1 2 3 4 5 show ?thesis by simp
qed

section \<open>The type of a column\<close>



section \<open>Records that miss a key\<close>

text \<open>
  Claim C7, as the specification states it: a record without a key of the first record
  holds \<open>null\<close> under that key's sanitized name. The second record below has no key
  \<open>"A"\<close>; its row holds \<open>x\<close> under \<open>A\<close>, the value of its key \<open>"A "\<close>, which sanitizes to the
  same name and is written later.
\<close>

theorem colliding_names_hide_missing_key:
  "map_of (ownProps ([JObj [(''A'', JStr ''1''), (''A '', JStr ''2'')], JObj [(''A '', JStr ''x'')]] ! 1)) ''A'' = None \<and>
   resultColumns (convertJsonToParsedData refHost
      [JObj [(''A'', JStr ''1''), (''A '', JStr ''2'')], JObj [(''A '', JStr ''x'')]]) = Some [''A'', ''A''] \<and>
   resultCell (convertJsonToParsedData refHost
      [JObj [(''A'', JStr ''1''), (''A '', JStr ''2'')], JObj [(''A '', JStr ''x'')]]) 1 ''A'' = Some (CStr ''x'')"
proof -
  let ?d = "[JObj [(''A'', JStr ''1''), (''A '', JStr ''2'')], JObj [(''A '', JStr ''x'')]]"
  let ?t = "tableOf refHost [''A'', ''A ''] ?d"
  have cols: "cleanColumns [''A'', ''A ''] = [''A'', ''A'']" by code_simp
  have ks: "Object_keys (JObj [(''A'', JStr ''1''), (''A '', JStr ''2'')]) = Inr [''A'', ''A '']"
    by (simp add: keys_of_object)
  have rc: "list_all (rowCleans refHost [''A'', ''A '']) ?d" by code_simp
  have conv: "convertJsonToParsedData refHost ?d = Inr ?t"
    using rc by (simp add: convert_Inr[OF ks])
  have v: "cleanValue (JStr ''x'') = Inr (Some ''x'')" by code_simp
  have u: "cleanValue JUndefined = Inr None" by (simp add: cleanValue_def)
  have n: "\<not> isNumberSample (CStr ''x'')" by code_simp
  have b: "\<not> isBooleanSample (CStr ''x'')" by code_simp
  have row: "cleanedRowOf refHost [''A'', ''A ''] (JObj [(''A '', JStr ''x'')]) ''A'' = Some (CStr ''x'')"
    by (simp add: row_defs cols v u refHost_def objectPrototype_def)
  have mem: "CStr ''x'' \<in> set (colSamplesOf [''A'', ''A'']
      (take (min 100 (length (map (cleanedRowOf refHost [''A'', ''A '']) ?d))) (map (cleanedRowOf refHost [''A'', ''A '']) ?d)) ''A'')"
    by (subst set_colSamplesOf) (simp_all add: row)
  have ty: "columnTypes ?t ''A'' \<noteq> Some TNumber"
    using mem n b
    by (simp add: tableOf_def Let_def cols inferColumnTypes_apply inferType_def list_all_iff
        del: isNumberSample.simps isBooleanSample.simps) blast
  have "(rows ?t ! 1) ''A'' = Some (CStr ''x'')"
    using ty by (simp add: table_row_nth finalRow_apply table_types_proto row)
  then have "resultCell (convertJsonToParsedData refHost ?d) 1 ''A'' = Some (CStr ''x'')"
    by (simp add: conv resultCell_def) (simp add: tableOf_def Let_def)
  moreover have "resultColumns (convertJsonToParsedData refHost ?d) = Some [''A'', ''A'']"
    by (simp add: conv resultColumns_def) (simp add: tableOf_def Let_def cols)
  moreover have "map_of (ownProps (?d ! 1)) ''A'' = None" by (simp add: ownProps_def)
  ultimately show ?thesis by simp
qed

text \<open>
  Claim C7, amended. Take an input whose first record has the keys \<open>ks\<close>, and a record
  \<open>j\<close> that neither owns nor inherits the key \<open>ks ! i\<close>, the sanitized name of that key being
  neither the name of a later column nor \<open>__proto__\<close>. Then the missing key is no cause of
  an error: the conversion returns a table exactly when no element of the input is \<open>null\<close>
  or \<open>undefined\<close> and every \<^emph>\<open>other\<close> value read (any record, any key of the first record,
  except the missing key of record \<open>j\<close>) converts to text without raising. And whenever
  the conversion returns, row \<open>j\<close> holds \<open>null\<close> under the sanitized name.
\<close>

theorem missing_key_yields_null:
  assumes "Object_keys first = Inr ks"
    and "i < length ks"
    and "j < length (first # rest)"
    and "map_of (ownProps ((first # rest) ! j)) (ks ! i) = None"
    and "inherited h ((first # rest) ! j) (ks ! i) = JUndefined"
    and "cleanColumns ks ! i \<notin> set (drop (Suc i) (cleanColumns ks))"
    and "cleanColumns ks ! i \<noteq> ''__proto__''"
  shows "((\<exists>t. convertJsonToParsedData h (first # rest) = Inr t) \<longleftrightarrow>
            (\<forall>row\<in>set (first # rest). \<not> isNullish row \<and>
               (\<forall>k\<in>set ks. (row, k) \<noteq> ((first # rest) ! j, ks ! i) \<longrightarrow>
                  cleanValue (propValue h row k) \<noteq> Inl TypeError))) \<and>
         (\<forall>t. convertJsonToParsedData h (first # rest) = Inr t \<longrightarrow>
            (rows t ! j) (cleanColumns ks ! i) = Some CNull)"
proof -
  from assms(2) have ne: "ks \<noteq> []" by auto
  let ?d = "first # rest"
  let ?t = "tableOf h ks ?d"
  have pv: "propValue h (?d ! j) (ks ! i) = JUndefined"
    using assms(4,5) by (simp add: propValue_def)
  have cv: "cleanValue (propValue h (?d ! j) (ks ! i)) \<noteq> Inl TypeError"
    unfolding pv by (simp add: cleanValue_def)
  have each: "(\<forall>k\<in>set ks. cleanValue (propValue h row k) \<noteq> Inl TypeError) \<longleftrightarrow>
      (\<forall>k\<in>set ks. (row, k) \<noteq> (?d ! j, ks ! i) \<longrightarrow> cleanValue (propValue h row k) \<noteq> Inl TypeError)"
    for row
    using cv by (metis prod.inject)
  have "(\<exists>t. convertJsonToParsedData h ?d = Inr t) \<longleftrightarrow> (\<forall>row\<in>set ?d. rowCleans h ks row)"
    using convert_Inr[OF assms(1) ne, of h rest] by blast
  also have "\<dots> \<longleftrightarrow> (\<forall>row\<in>set ?d. \<not> isNullish row \<and>
      (\<forall>k\<in>set ks. (row, k) \<noteq> (?d ! j, ks ! i) \<longrightarrow> cleanValue (propValue h row k) \<noteq> Inl TypeError))"
    unfolding rowCleans_def list_all_iff each[symmetric] ..
  finally have 1: "(\<exists>t. convertJsonToParsedData h ?d = Inr t) \<longleftrightarrow>
      (\<forall>row\<in>set ?d. \<not> isNullish row \<and>
        (\<forall>k\<in>set ks. (row, k) \<noteq> (?d ! j, ks ! i) \<longrightarrow> cleanValue (propValue h row k) \<noteq> Inl TypeError))" .
  have 2: "\<forall>t. convertJsonToParsedData h ?d = Inr t \<longrightarrow> (rows t ! j) (cleanColumns ks ! i) = Some CNull"
  proof (intro allI impI)
    fix t assume "convertJsonToParsedData h ?d = Inr t"
    then have t: "t = ?t" and rc: "\<forall>row\<in>set ?d. rowCleans h ks row"
      using convert_Inr[OF assms(1) ne, of h rest t] by simp_all
    from assms(3) have "?d ! j \<in> set ?d" by (rule nth_mem)
    with rc have "rowCleans h ks (?d ! j)" by (rule bspec)
    from cleanedRowOf_at[OF this assms(2,6,7)]
    have "cleanedRowOf h ks (?d ! j) (cleanColumns ks ! i) = Some CNull"
      by (simp add: cellAt_def pv cleanValue_def toCell_def)
    then show "(rows t ! j) (cleanColumns ks ! i) = Some CNull"
      unfolding t using assms(3) by (simp add: table_row_nth finalRow_apply table_types_proto)
  qed
  from 1 2 show ?thesis ..
qed

theorem missing_key_witness:
  "resultCell (convertJsonToParsedData refHost
      [JObj [(''a'', JStr ''1''), (''b'', JStr ''2'')], JObj [(''a'', JStr ''3'')]]) 1 ''b'' = Some CNull \<and>
   convertJsonToParsedData refHost
      [JObj [(''a'', JObj [(''toString'', JNum ''1'')]), (''b'', JStr ''2'')], JObj [(''a'', JStr ''3'')]]
     = Inl TypeError"
proof -
  let ?first = "JObj [(''a'', JStr ''1''), (''b'', JStr ''2'')]"
  let ?bad = "JObj [(''a'', JObj [(''toString'', JNum ''1'')]), (''b'', JStr ''2'')]"
  let ?rest = "[JObj [(''a'', JStr ''3'')]]"
  have cols: "cleanColumns [''a'', ''b''] = [''a'', ''b'']" by code_simp
  have ks: "Object_keys ?first = Inr [''a'', ''b'']" by (simp add: keys_of_object)
  have kb: "Object_keys ?bad = Inr [''a'', ''b'']" by (simp add: keys_of_object)
  have i: "1 < length [''a'', ''b'']" by simp
  have j: "1 < length (?first # ?rest)" by simp
  have jb: "1 < length (?bad # ?rest)" by simp
  have own: "map_of (ownProps ((?first # ?rest) ! 1)) ([''a'', ''b''] ! 1) = None"
    by (simp add: ownProps_def)
  have ownb: "map_of (ownProps ((?bad # ?rest) ! 1)) ([''a'', ''b''] ! 1) = None"
    by (simp add: ownProps_def)
  have inh: "inherited refHost ((?first # ?rest) ! 1) ([''a'', ''b''] ! 1) = JUndefined"
    by (simp add: refHost_def objectPrototype_def)
  have inhb: "inherited refHost ((?bad # ?rest) ! 1) ([''a'', ''b''] ! 1) = JUndefined"
    by (simp add: refHost_def objectPrototype_def)
  have later: "cleanColumns [''a'', ''b''] ! 1 \<notin> set (drop (Suc 1) (cleanColumns [''a'', ''b'']))"
    by (simp add: cols)
  have np: "cleanColumns [''a'', ''b''] ! 1 \<noteq> ''__proto__''" by (simp add: cols)
  note T = missing_key_yields_null[OF ks i j own inh later np]
  note B = missing_key_yields_null[OF kb i jb ownb inhb later np]
  have v1: "cleanValue (JStr ''1'') = Inr (Some ''1'')" by code_simp
  have v2: "cleanValue (JStr ''2'') = Inr (Some ''2'')" by code_simp
  have v3: "cleanValue (JStr ''3'') = Inr (Some ''3'')" by code_simp
  have vb: "cleanValue (JObj [(''toString'', JNum ''1'')]) = Inl TypeError" by code_simp
  have "\<exists>t. convertJsonToParsedData refHost (?first # ?rest) = Inr t"
    unfolding T[THEN conjunct1]
    by (simp add: isNullish_def propValue_def ownProps_def v1 v2 v3)
  then obtain t where t: "convertJsonToParsedData refHost (?first # ?rest) = Inr t" ..
  with T[THEN conjunct2] have c: "(rows t ! 1) (cleanColumns [''a'', ''b''] ! 1) = Some CNull" by blast
  from t have "length (rows t) = 2"
    using convert_Inr[OF ks, of refHost ?rest t] by (simp add: tableOf_def Let_def)
  with t c have 1: "resultCell (convertJsonToParsedData refHost (?first # ?rest)) 1 ''b'' = Some CNull"
    by (simp add: resultCell_def cols)
  have "\<not> (\<exists>t. convertJsonToParsedData refHost (?bad # ?rest) = Inr t)"
    unfolding B[THEN conjunct1]
    by (simp add: isNullish_def propValue_def ownProps_def vb)
  then have 2: "convertJsonToParsedData refHost (?bad # ?rest) = Inl TypeError"
    by (cases "convertJsonToParsedData refHost (?bad # ?rest)") (simp_all add: error_is_TypeError)
  from 1 2 show ?thesis ..
qed

section \<open>The index column of the example\<close>

lemma run_index_name:
  fixes h :: host
  defines "r \<equiv> convertJsonToParsedData h [JObj [(''#'', JStr ''1''), (''Name'', JStr ''Ravi Kumar'')]]"
  shows "resultColumns r = Some [''Column_1'', ''Name'']"
    and "resultType r ''Column_1'' = Some TNumber"
    and "resultCell r 0 ''Column_1'' = Some (CNum (Finite 1))"
proof -
  have cols: "cleanColumns [''#'', ''Name''] = [''Column_1'', ''Name'']" by code_simp
  have v1: "cleanValue (JStr ''1'') = Inr (Some ''1'')" by code_simp
  have v2: "cleanValue (JStr ''Ravi Kumar'') = Inr (Some ''Ravi Kumar'')" by code_simp
  have b1: "\<not> isBooleanSample (CStr ''1'')" by code_simp
  have n1: "isNumberSample (CStr ''1'')" by code_simp
  have n2: "Number_of ''1'' = Finite 1" by code_simp
  show "resultColumns r = Some [''Column_1'', ''Name'']"
    and "resultType r ''Column_1'' = Some TNumber"
    and "resultCell r 0 ''Column_1'' = Some (CNum (Finite 1))"
    unfolding r_def
    by (simp_all add: table_defs cols v1 v2 b1 n1 n2 del: isNumberSample.simps isBooleanSample.simps)
qed

text \<open>
  Claim C2, as the specification states it: for \<open>[{"#": "1", "Name": "Ravi Kumar"}]\<close> the
  column \<open>Column_1\<close> is typed \<open>string\<close> and its cell is the string \<open>"1"\<close>. Neither holds.
\<close>

theorem index_column_not_string:
  "resultType (convertJsonToParsedData refHost [JObj [(''#'', JStr ''1''), (''Name'', JStr ''Ravi Kumar'')]]) ''Column_1''
     \<noteq> Some TString \<and>
   resultCell (convertJsonToParsedData refHost [JObj [(''#'', JStr ''1''), (''Name'', JStr ''Ravi Kumar'')]]) 0 ''Column_1''
     \<noteq> Some (CStr ''1'')"
  using run_index_name[of refHost] by simp

text \<open>
  Claim C2, amended. For the input \<open>[{"#": "1", "Name": "Ravi Kumar"}]\<close>, on every host,
  \<open>#\<close> sanitizes to the empty string, the fallback name \<open>Column_1\<close> takes its place, and
  the type inferred for that column is \<open>number\<close>: its single cell is the number 1.
\<close>

theorem index_column_is_number:
  "filter isWordChar (collapseSpaces (stripEdges (trim ''#''))) = [] \<and>
   sanitizeColumn ''#'' 0 = ''Column_1'' \<and>
   resultColumns (convertJsonToParsedData h [JObj [(''#'', JStr ''1''), (''Name'', JStr ''Ravi Kumar'')]])
     = Some [''Column_1'', ''Name''] \<and>
   resultType (convertJsonToParsedData h [JObj [(''#'', JStr ''1''), (''Name'', JStr ''Ravi Kumar'')]]) ''Column_1''
     = Some TNumber \<and>
   resultCell (convertJsonToParsedData h [JObj [(''#'', JStr ''1''), (''Name'', JStr ''Ravi Kumar'')]]) 0 ''Column_1''
     = Some (CNum (Finite 1))"
proof -
  have "filter isWordChar (collapseSpaces (stripEdges (trim ''#''))) = []" by code_simp
  moreover have "sanitizeColumn ''#'' 0 = ''Column_1''" by code_simp
  ultimately show ?thesis using run_index_name[of h] by simp
qed

section \<open>The final pass\<close>

lemma final_pass_cell:
  assumes "convertJsonToParsedData h (first # rest) = Inr t"
    and "Object_keys first = Inr ks"
    and "columnTypes t c = Some TNumber"
    and "j < length (first # rest)"
    and "cleanedRowOf h ks ((first # rest) ! j) c = Some (CStr s)"
  shows "(rows t ! j) c = Some (CNum (Number_of s))"
proof -
  let ?d = "first # rest"
  have ne: "ks \<noteq> []"
  proof
    assume "ks = []"
    with assms(1,2) have "t = emptyParsedData" by (simp add: convertJsonToParsedData_def)
    with assms(3) show False by (simp add: emptyParsedData_def)
  qed
  from assms(1) have t: "t = tableOf h ks ?d" using convert_Inr[OF assms(2) ne, of h rest t] by simp
  have crs: "map (cleanedRowOf h ks) ?d \<noteq> []" by simp
  have types: "columnTypes t = inferColumnTypes h (cleanColumns ks) (map (cleanedRowOf h ks) ?d)"
    by (simp add: t tableOf_def Let_def)
  from assms(3) have "c \<in> dom (columnTypes t)" by (rule domI)
  then have "c \<in> set (cleanColumns ks) - {''__proto__''}"
    unfolding types dom_inferColumnTypes[OF crs] .
  then have c: "c \<in> set (cleanColumns ks)" by simp
  have "(rows (tableOf h ks ?d) ! j) c =
      finalRow (columnTypes (tableOf h ks ?d)) (cleanColumns ks) (cleanedRowOf h ks (?d ! j)) c"
    using assms(4) by (simp only: table_row_nth)
  also have "\<dots> = Some (CNum (Number_of s))"
    using assms(3,5) c unfolding t by (simp add: finalRow_apply table_types_proto Number_cell_def)
  finally show ?thesis unfolding t .
qed

lemma longInput_rows:
  "set (take 100 longInput) = {JObj [(''n'', JStr ''1'')]}"
  "longInput ! 100 = JObj [(''n'', JStr ''x'')]"
  "length longInput = 101"
  "\<forall>v\<in>set longInput. rowCleans refHost [''n''] v"
proof -
  have 1: "rowCleans refHost [''n''] (JObj [(''n'', JStr ''1'')])" by code_simp
  have x: "rowCleans refHost [''n''] (JObj [(''n'', JStr ''x'')])" by code_simp
  show "set (take 100 longInput) = {JObj [(''n'', JStr ''1'')]}"
    "longInput ! 100 = JObj [(''n'', JStr ''x'')]"
    "length longInput = 101"
    by (simp_all add: longInput_def nth_append)
  have "set longInput = {JObj [(''n'', JStr ''1'')], JObj [(''n'', JStr ''x'')]}"
    by (simp add: longInput_def) blast
  with 1 x show "\<forall>v\<in>set longInput. rowCleans refHost [''n''] v" by simp
qed

lemma longInput_run:
  "resultType (convertJsonToParsedData refHost longInput) ''n'' = Some TNumber"
  "list_all isNumberSample (spec_sample (map (cleanedRowOf refHost [''n'']) longInput) ''n'')"
  "cleanedRowOf refHost [''n''] (longInput ! 100) ''n'' = Some (CStr ''x'')"
  "cleanValue (propValue refHost (longInput ! 100) ''n'') = Inr (Some ''x'')"
  "convertJsonToParsedData refHost longInput = Inr (tableOf refHost [''n''] longInput)"
  "Object_keys (hd longInput) = Inr [''n'']"
  "\<not> isNumberSample (CStr ''x'')"
proof -
  let ?first = "JObj [(''n'', JStr ''1'')]"
  let ?rest = "replicate 99 (JObj [(''n'', JStr ''1'')]) @ [JObj [(''n'', JStr ''x'')]]"
  let ?t = "tableOf refHost [''n''] longInput"
  let ?crs = "map (cleanedRowOf refHost [''n'']) longInput"
  have li: "longInput = ?first # ?rest" by (simp add: longInput_def)
  have cols: "cleanColumns [''n''] = [''n'']" by code_simp
  have ks: "Object_keys ?first = Inr [''n'']" by (simp add: keys_of_object)
  then show "Object_keys (hd longInput) = Inr [''n'']" by (simp add: li)
  have ne: "[''n''] \<noteq> ([] :: string list)" by simp
  have conv: "convertJsonToParsedData refHost (?first # ?rest) = Inr ?t"
    using longInput_rows(4) unfolding li convert_Inr[OF ks ne] by simp
  then show "convertJsonToParsedData refHost longInput = Inr ?t" by (simp add: li)
  have v1: "cleanValue (JStr ''1'') = Inr (Some ''1'')" by code_simp
  have vx: "cleanValue (JStr ''x'') = Inr (Some ''x'')" by code_simp
  have n1: "isNumberSample (CStr ''1'')" by code_simp
  have b1: "\<not> isBooleanSample (CStr ''1'')" by code_simp
  show nx: "\<not> isNumberSample (CStr ''x'')" by code_simp
  have r1: "cleanedRowOf refHost [''n''] ?first ''n'' = Some (CStr ''1'')"
    by (simp add: row_defs cols v1)
  show rx: "cleanedRowOf refHost [''n''] (longInput ! 100) ''n'' = Some (CStr ''x'')"
    by (simp add: longInput_rows(2) row_defs cols vx)
  show "cleanValue (propValue refHost (longInput ! 100) ''n'') = Inr (Some ''x'')"
    by (simp add: longInput_rows(2) propValue_def ownProps_def vx)
  have tk: "take (min 100 (length ?crs)) ?crs = map (cleanedRowOf refHost [''n'']) (take 100 longInput)"
    by (simp add: take_map longInput_rows(3))
  have smp: "set (colSamplesOf [''n''] (map (cleanedRowOf refHost [''n'']) (take 100 longInput)) ''n'') = set [CStr ''1'']"
    by (subst set_colSamplesOf) (auto simp: longInput_rows(1) r1)
  have "inferType refHost (colSamplesOf [''n''] (map (cleanedRowOf refHost [''n'']) (take 100 longInput)) ''n'')
      = inferType refHost [CStr ''1'']"
    using smp by (rule inferType_set_cong)
  also have "\<dots> = TNumber"
    using n1 b1 by (simp add: inferType_def del: isNumberSample.simps isBooleanSample.simps)
  finally have inf: "inferType refHost
      (colSamplesOf [''n''] (map (cleanedRowOf refHost [''n'']) (take 100 longInput)) ''n'') = TNumber" .
  have nonempty: "?crs \<noteq> []" by (simp add: longInput_def)
  have "inferColumnTypes refHost [''n''] ?crs ''n'' = Some TNumber"
    unfolding inferColumnTypes_apply[OF nonempty] tk inf by simp
  then have ty: "columnTypes ?t ''n'' = Some TNumber"
    by (simp add: tableOf_def Let_def cols)
  then show "resultType (convertJsonToParsedData refHost longInput) ''n'' = Some TNumber"
    using conv unfolding li[symmetric] by (simp add: resultType_def)
  have "set (spec_sample ?crs ''n'') \<subseteq> {CStr ''1''}"
    unfolding set_spec_sample tk using r1 by (auto simp: longInput_rows(1))
  then show "list_all isNumberSample (spec_sample ?crs ''n'')"
    using n1 unfolding list_all_iff by (auto simp del: isNumberSample.simps)
qed

lemma longInput_cell:
  "resultCell (convertJsonToParsedData refHost longInput) 100 ''n'' = Some (CNum NaN)"
proof -
  let ?rest = "replicate 99 (JObj [(''n'', JStr ''1'')]) @ [JObj [(''n'', JStr ''x'')]]"
  let ?t = "tableOf refHost [''n''] longInput"
  have li: "longInput = hd longInput # ?rest" by (simp add: longInput_def)
  have nan: "Number_of ''x'' = NaN" by code_simp
  have ty: "columnTypes ?t ''n'' = Some TNumber"
    using longInput_run(1) by (simp add: longInput_run(5) resultType_def)
  have "(rows ?t ! 100) ''n'' = Some (CNum (Number_of ''x''))"
  proof (rule final_pass_cell[where h = refHost and first = "hd longInput" and rest = ?rest and ks = "[''n'']"])
    show "convertJsonToParsedData refHost (hd longInput # ?rest) = Inr ?t"
      using longInput_run(5) li by simp
    show "Object_keys (hd longInput) = Inr [''n'']" by (rule longInput_run(6))
    show "columnTypes ?t ''n'' = Some TNumber" by (rule ty)
    show "100 < length (hd longInput # ?rest)" by simp
    show "cleanedRowOf refHost [''n''] ((hd longInput # ?rest) ! 100) ''n'' = Some (CStr ''x'')"
      using longInput_run(3) li by simp
  qed
  moreover have "length (rows ?t) = 101" by (simp add: tableOf_def Let_def longInput_rows(3))
  ultimately show ?thesis by (simp add: longInput_run(5) resultCell_def nan)
qed

text \<open>
  Claim C9. The final pass converts every non-null cell of a column typed \<open>number\<close>, in
  every row and not only in the sampled ones, to the number its cleaned text denotes.
  Hence there is an input of more than 100 records whose sampled values in a column are
  all numeric and whose later record holds a text that is not: the column is typed
  \<open>number\<close> and that later cell is \<open>NaN\<close>.
\<close>

theorem number_column_coerced_in_every_row:
  "(convertJsonToParsedData h (first # rest) = Inr t \<and> Object_keys first = Inr ks \<and>
      columnTypes t c = Some TNumber \<and> j < length (first # rest) \<and>
      cleanedRowOf h ks ((first # rest) ! j) c = Some (CStr s)
    \<longrightarrow> (rows t ! j) c = Some (CNum (Number_of s))) \<and>
   (\<exists>jsonData. 100 < length jsonData \<and>
      resultType (convertJsonToParsedData refHost jsonData) ''n'' = Some TNumber \<and>
      list_all isNumberSample (spec_sample (map (cleanedRowOf refHost [''n'']) jsonData) ''n'') \<and>
      cleanValue (propValue refHost (jsonData ! 100) ''n'') = Inr (Some ''x'') \<and>
      \<not> isNumberSample (CStr ''x'') \<and>
      resultCell (convertJsonToParsedData refHost jsonData) 100 ''n'' = Some (CNum NaN))"
proof (intro conjI impI)
  assume a: "convertJsonToParsedData h (first # rest) = Inr t \<and> Object_keys first = Inr ks \<and>
      columnTypes t c = Some TNumber \<and> j < length (first # rest) \<and>
      cleanedRowOf h ks ((first # rest) ! j) c = Some (CStr s)"
  from a have a1: "convertJsonToParsedData h (first # rest) = Inr t"
    and a2: "Object_keys first = Inr ks" and a3: "columnTypes t c = Some TNumber"
    and a4: "j < length (first # rest)"
    and a5: "cleanedRowOf h ks ((first # rest) ! j) c = Some (CStr s)" by blast+
  show "(rows t ! j) c = Some (CNum (Number_of s))"
    by (rule final_pass_cell[OF a1 a2 a3 a4 a5])
next
  have "100 < length longInput" by (simp add: longInput_rows(3))
  with longInput_run(1,2,4,7) longInput_cell
  show "\<exists>jsonData. 100 < length jsonData \<and>
      resultType (convertJsonToParsedData refHost jsonData) ''n'' = Some TNumber \<and>
      list_all isNumberSample (spec_sample (map (cleanedRowOf refHost [''n'']) jsonData) ''n'') \<and>
      cleanValue (propValue refHost (jsonData ! 100) ''n'') = Inr (Some ''x'') \<and>
      \<not> isNumberSample (CStr ''x'') \<and>
      resultCell (convertJsonToParsedData refHost jsonData) 100 ''n'' = Some (CNum NaN)"
    by (intro exI[of _ longInput] conjI)
qed

theorem number_column_witness:
  "length longInput = 101 \<and>
   (rows (tableOf refHost [''n''] longInput) ! 100) ''n'' = Some (CNum NaN)"
proof -
  let ?rest = "replicate 99 (JObj [(''n'', JStr ''1'')]) @ [JObj [(''n'', JStr ''x'')]]"
  let ?t = "tableOf refHost [''n''] longInput"
  have li: "longInput = hd longInput # ?rest" by (simp add: longInput_def)
  have nan: "Number_of ''x'' = NaN" by code_simp
  have hyp: "convertJsonToParsedData refHost (hd longInput # ?rest) = Inr ?t \<and>
      Object_keys (hd longInput) = Inr [''n''] \<and>
      columnTypes ?t ''n'' = Some TNumber \<and> 100 < length (hd longInput # ?rest) \<and>
      cleanedRowOf refHost [''n''] ((hd longInput # ?rest) ! 100) ''n'' = Some (CStr ''x'')"
    using longInput_run(1,3,5,6) li by (simp add: resultType_def longInput_rows(3))
  have "(rows ?t ! 100) ''n'' = Some (CNum (Number_of ''x''))"
    by (rule mp[OF number_column_coerced_in_every_row[THEN conjunct1] hyp])
  then show ?thesis by (simp add: nan longInput_rows(3))
qed

end
